theory Spec2Isabelle
  imports Complex_Main "HOL-Library.Product_Lexorder" "HOL-Library.Log_Nat"
begin

section \<open>The three input tables\<close>

text \<open>
  The pipeline reads \<^verbatim>\<open>users.csv\<close>, \<^verbatim>\<open>weights.csv\<close> and \<^verbatim>\<open>treatments.csv\<close>.
  The loader is outside the embedding: the three tables arrive as typed row lists, in
  file order. A timestamp is a \<^verbatim>\<open>datetime64[ns]\<close> value, an integer number of
  nanoseconds. A weight is a \<^verbatim>\<open>float64\<close> cell, kept as the rational number it holds; every
  float operation of the pipeline rounds its exact result to \<^verbatim>\<open>float64\<close> (section
  \<open>float64 arithmetic\<close>).
  The only cell of an input row that may be empty is the update timestamp of a weight
  record; every other null of the joined frame comes from an unmatched side of a left
  join.
\<close>

type_synonym timestamp = int

record user =
  UID :: int
  Gender :: string
  Birthday :: timestamp
  Age :: int
  ClinicID :: int
  UIDCreatedDate :: timestamp
  User_IsActive :: bool

record weight_rec =
  W_MasterUserID :: int
  Weight :: rat
  Weights_CreatedDate :: timestamp
  Weights_UpdatedDate :: "timestamp option"
  Weights_IsActive :: bool
  Weights_IsDelete :: bool

record treatment =
  T_MasterUserID :: int
  TreatmentTypeID :: int
  Treatment_StartDate :: timestamp

text \<open>
  A row of the merged frame: the user's columns, the weight record's columns (all null
  together when the user has no weight record) and the treatment's columns (likewise).
  The two \<^verbatim>\<open>MasterUserID\<close> columns the source drops equal \<^verbatim>\<open>UID\<close> wherever they are
  not null, so keeping them inside the optional parts changes no comparison of rows.
\<close>

record merged_row =
  usr :: user
  wgt :: "weight_rec option"
  trt :: "treatment option"

record cohort_row = merged_row +
  month :: int
  week :: "int option"

record metric_row = cohort_row +
  weigh_in_rate :: "int option"
  patient_starting_weight :: "rat option"
  treatment_starting_weight :: "rat option"
  treatment_TBWL :: "rat option"
  patient_TBWL :: "rat option"

datatype error = ValueError | AttributeError

text \<open>
  \<^verbatim>\<open>analytics_data_model.py\<close> and \<^verbatim>\<open>pandas_DataModel.py\<close> are the same pandas
  pipeline up to the cohort index formulas and the sign of \<^verbatim>\<open>patient_TBWL\<close>.
\<close>

datatype variant = Analytics | Pandas

text \<open>The \<^verbatim>\<open>cohort\<close> argument names a column: \<^verbatim>\<open>week\<close>, \<^verbatim>\<open>month\<close> or \<^verbatim>\<open>ClinicID\<close>.\<close>

datatype cohort = Week | Month | Clinic

section \<open>Columns of the merged frame\<close>

definition Weight_col :: "'a merged_row_scheme \<Rightarrow> rat option" where
  "Weight_col r = map_option Weight (wgt r)"

definition Weights_CreatedDate_col :: "'a merged_row_scheme \<Rightarrow> timestamp option" where
  "Weights_CreatedDate_col r = map_option Weights_CreatedDate (wgt r)"

definition Weights_UpdatedDate_col :: "'a merged_row_scheme \<Rightarrow> timestamp option" where
  "Weights_UpdatedDate_col r = (case wgt r of None \<Rightarrow> None | Some w \<Rightarrow> Weights_UpdatedDate w)"

definition TreatmentTypeID_col :: "'a merged_row_scheme \<Rightarrow> int option" where
  "TreatmentTypeID_col r = map_option TreatmentTypeID (trt r)"

definition Treatment_StartDate_col :: "'a merged_row_scheme \<Rightarrow> timestamp option" where
  "Treatment_StartDate_col r = map_option Treatment_StartDate (trt r)"

section \<open>filters\<close>

text \<open>
  The gender test is an \<^verbatim>\<open>if/elif\<close> chain with no \<^verbatim>\<open>else\<close>: any other string leaves
  the frame as it is. The age and clinic masks follow.
\<close>

definition filters ::
  "'a merged_row_scheme list \<Rightarrow> string \<Rightarrow> int \<Rightarrow> int \<Rightarrow> int \<Rightarrow> 'a merged_row_scheme list" where
  "filters df gender min_age max_age clinic =
     (let df1 = (if gender = ''all'' then df
                 else if gender = ''Male'' then filter (\<lambda>r. Gender (usr r) = ''Male'') df
                 else if gender = ''Female'' then filter (\<lambda>r. Gender (usr r) = ''Female'') df
                 else df);
          df2 = filter (\<lambda>r. Age (usr r) \<ge> min_age \<and> Age (usr r) \<le> max_age) df1;
          df3 = filter (\<lambda>r. ClinicID (usr r) = clinic) df2
      in df3)"

section \<open>The two left joins\<close>

text \<open>
  \<^verbatim>\<open>pd.merge(how='left')\<close>: every left row, in order, once per matching right row in the
  right table's order, or once with nulls when nothing matches.
\<close>

definition left_matches :: "'a list \<Rightarrow> 'a option list" where
  "left_matches xs = (case xs of [] \<Rightarrow> [None] | _ \<Rightarrow> map Some xs)"

definition merge_users_weights :: "user list \<Rightarrow> weight_rec list \<Rightarrow> (user \<times> weight_rec option) list" where
  "merge_users_weights users weights =
     concat (map (\<lambda>u. map (\<lambda>w. (u, w))
                   (left_matches (filter (\<lambda>w. W_MasterUserID w = UID u) weights))) users)"

definition merge_treatments ::
  "(user \<times> weight_rec option) list \<Rightarrow> treatment list \<Rightarrow> merged_row list" where
  "merge_treatments uw treatments =
     concat (map (\<lambda>(u, w). map (\<lambda>t. \<lparr>usr = u, wgt = w, trt = t\<rparr>)
                   (left_matches (filter (\<lambda>t. T_MasterUserID t = UID u) treatments))) uw)"

definition merge_left :: "user list \<Rightarrow> weight_rec list \<Rightarrow> treatment list \<Rightarrow> merged_row list" where
  "merge_left users weights treatments =
     merge_treatments (merge_users_weights users weights) treatments"

section \<open>sort_values\<close>

text \<open>
  A sort on several columns is stable and puts nulls last. The key of a nullable column
  is the pair (is null, value), compared lexicographically.
\<close>

definition na_last :: "int option \<Rightarrow> bool \<times> int" where
  "na_last x = (case x of None \<Rightarrow> (True, 0) | Some v \<Rightarrow> (False, v))"

definition sort_cols ::
  "merged_row \<Rightarrow> int \<times> int \<times> (bool \<times> int) \<times> (bool \<times> int) \<times> (bool \<times> int) \<times> (bool \<times> int)" where
  "sort_cols r =
     (UID (usr r), UIDCreatedDate (usr r), na_last (TreatmentTypeID_col r),
      na_last (Treatment_StartDate_col r), na_last (Weights_CreatedDate_col r),
      na_last (Weights_UpdatedDate_col r))"

definition sort_values :: "merged_row list \<Rightarrow> merged_row list" where
  "sort_values df = sort_key sort_cols df"

section \<open>float64 arithmetic\<close>

text \<open>
  A finite \<^verbatim>\<open>float64\<close> is a rational with a significand of 53 bits. Every operation gives
  the exact result rounded to the nearest such number, ties to the even significand.
  The exponent range is not bounded here: overflow needs a magnitude of 2 to the 1024,
  and a difference of two \<^verbatim>\<open>float64\<close> numbers in the subnormal range is exact.
\<close>

definition round_half_even :: "rat \<Rightarrow> int" where
  "round_half_even x =
     (let n = \<lfloor>x\<rfloor>; r = x - of_int n
      in if r < 1 / 2 then n else if 1 / 2 < r then n + 1 else if even n then n else n + 1)"

text \<open>The exponent \<open>e\<close> of a positive number: 2 to the \<open>e\<close> is at most \<open>x\<close>, which is below 2 to the \<open>e + 1\<close>.\<close>

definition float_exponent :: "rat \<Rightarrow> int" where
  "float_exponent x = (if 1 \<le> x then bitlen \<lfloor>x\<rfloor> - 1 else - bitlen (\<lceil>1 / x\<rceil> - 1))"

definition fl64 :: "rat \<Rightarrow> rat" where
  "fl64 x =
     (if x = 0 then 0
      else (let ulp = 2 powi (float_exponent \<bar>x\<bar> - 52)
            in of_int (round_half_even (x / ulp)) * ulp))"

text \<open>Conversion of an \<^verbatim>\<open>int64\<close> to \<^verbatim>\<open>float64\<close>, and the quotient of two \<^verbatim>\<open>float64\<close> numbers.\<close>

definition float_of_int :: "int \<Rightarrow> rat" where
  "float_of_int i = fl64 (of_int i)"

definition float_div :: "rat \<Rightarrow> rat \<Rightarrow> rat" where
  "float_div a b = fl64 (a / b)"

definition float_sub :: "rat \<Rightarrow> rat \<Rightarrow> rat" where
  "float_sub a b = fl64 (a - b)"

section \<open>Cohort indices\<close>

definition ns_per_day :: int where
  "ns_per_day = 86400000000000"

definition datediff :: "'a merged_row_scheme \<Rightarrow> int option" where
  "datediff r =
     (case (wgt r, trt r) of
        (Some w, Some t) \<Rightarrow> Some (Weights_CreatedDate w - Treatment_StartDate t)
      | _ \<Rightarrow> None)"

text \<open>\<^verbatim>\<open>.dt.days\<close>: the whole days of a timedelta, rounded towards minus infinity.\<close>

definition dt_days :: "int \<Rightarrow> int" where
  "dt_days d = d div ns_per_day"

text \<open>\<^verbatim>\<open>math.floor\<close> raises \<^verbatim>\<open>ValueError\<close> on NaN, the float a null cell holds.\<close>

definition math_floor :: "rat option \<Rightarrow> error + int" where
  "math_floor x = (case x of None \<Rightarrow> Inl ValueError | Some q \<Rightarrow> Inr \<lfloor>q\<rfloor>)"

text \<open>
  \<^verbatim>\<open>pd.Timedelta(days=30.44)\<close> is 2630016 seconds, in nanoseconds. The literal
  \<^verbatim>\<open>30.417\<close> is the \<^verbatim>\<open>float64\<close> nearest to 30417 / 1000.
\<close>

definition timedelta_30_44 :: int where
  "timedelta_30_44 = 2630016000000000"

definition float_30_417 :: rat where
  "float_30_417 = fl64 (30417 / 1000)"

text \<open>
  A timedelta divided by a timedelta is the quotient of the two \<^verbatim>\<open>int64\<close> nanosecond
  counts, each converted to \<^verbatim>\<open>float64\<close>; \<^verbatim>\<open>.dt.days / 30.417\<close> and \<^verbatim>\<open>.dt.days / 7\<close> are
  float quotients of the whole days; \<^verbatim>\<open>.dt.days // 7\<close> is the integer floor division.
\<close>

fun month_col :: "variant \<Rightarrow> merged_row \<Rightarrow> error + int" where
  "month_col Analytics r =
     (case math_floor (map_option (\<lambda>d. float_div (float_of_int d) (float_of_int timedelta_30_44))
                         (datediff r)) of
        Inl e \<Rightarrow> Inl e
      | Inr m \<Rightarrow> Inr (m + 1))"
| "month_col Pandas r =
     math_floor (map_option (\<lambda>d. float_div (float_of_int (dt_days d)) float_30_417) (datediff r))"

fun week_col :: "variant \<Rightarrow> merged_row \<Rightarrow> error + int option" where
  "week_col Analytics r = Inr (map_option (\<lambda>d. dt_days d div 7 + 1) (datediff r))"
| "week_col Pandas r =
     (case math_floor (map_option (\<lambda>d. float_div (float_of_int (dt_days d)) (float_of_int 7))
                         (datediff r)) of
        Inl e \<Rightarrow> Inl e
      | Inr w \<Rightarrow> Inr (Some w))"

text \<open>\<^verbatim>\<open>Series.apply\<close>: the function on every cell in order; the first raise ends the run.\<close>

fun traverse :: "('a \<Rightarrow> error + 'b) \<Rightarrow> 'a list \<Rightarrow> error + 'b list" where
  "traverse f [] = Inr []"
| "traverse f (x # xs) =
     (case f x of
        Inl e \<Rightarrow> Inl e
      | Inr y \<Rightarrow> (case traverse f xs of Inl e \<Rightarrow> Inl e | Inr ys \<Rightarrow> Inr (y # ys)))"

text \<open>
  On a frame without rows \<^verbatim>\<open>DataFrame.apply(pd.to_datetime)\<close> converts nothing, the
  timestamp columns keep the \<^verbatim>\<open>object\<close> type, and \<^verbatim>\<open>.dt.days\<close> raises
  \<^verbatim>\<open>AttributeError\<close>; no cell has raised before, there is none.
\<close>

definition add_cohorts :: "variant \<Rightarrow> merged_row list \<Rightarrow> error + cohort_row list" where
  "add_cohorts v df =
     (if df = [] then Inl AttributeError
      else
       (case traverse (month_col v) df of
          Inl e \<Rightarrow> Inl e
        | Inr ms \<Rightarrow>
            (case traverse (week_col v) df of
               Inl e \<Rightarrow> Inl e
             | Inr ws \<Rightarrow>
                 Inr (map (\<lambda>i. \<lparr>usr = usr (df ! i), wgt = wgt (df ! i), trt = trt (df ! i),
                                 month = ms ! i, week = ws ! i\<rparr>) [0..<length df]))))"

section \<open>Grouped aggregates\<close>

definition cohort_col :: "cohort \<Rightarrow> 'a cohort_row_scheme \<Rightarrow> int option" where
  "cohort_col c r = (case c of Week \<Rightarrow> week r | Month \<Rightarrow> Some (month r) | Clinic \<Rightarrow> Some (ClinicID (usr r)))"

text \<open>A group key with a null component belongs to no group (\<^verbatim>\<open>dropna=True\<close>).\<close>

definition key_patient :: "'a merged_row_scheme \<Rightarrow> int option" where
  "key_patient r = Some (UID (usr r))"

definition key_episode :: "'a merged_row_scheme \<Rightarrow> (int \<times> int \<times> timestamp) option" where
  "key_episode r =
     (case trt r of
        None \<Rightarrow> None
      | Some t \<Rightarrow> Some (UID (usr r), TreatmentTypeID t, Treatment_StartDate t))"

definition key_cohort :: "cohort \<Rightarrow> 'a cohort_row_scheme \<Rightarrow> (int \<times> int \<times> timestamp \<times> int) option" where
  "key_cohort c r =
     (case (trt r, cohort_col c r) of
        (Some t, Some n) \<Rightarrow> Some (UID (usr r), TreatmentTypeID t, Treatment_StartDate t, n)
      | _ \<Rightarrow> None)"

definition group_values :: "'k option list \<Rightarrow> 'v list \<Rightarrow> 'k \<Rightarrow> 'v list" where
  "group_values ks vs g = map snd (filter (\<lambda>p. fst p = Some g) (zip ks vs))"

text \<open>\<^verbatim>\<open>groupby(keys)[col].transform(agg)\<close>: every row gets the aggregate of its group.\<close>

definition transform :: "('v list \<Rightarrow> 'a option) \<Rightarrow> 'k option list \<Rightarrow> 'v list \<Rightarrow> 'a option list" where
  "transform agg ks vs =
     map (\<lambda>k. case k of None \<Rightarrow> None | Some g \<Rightarrow> agg (group_values ks vs g)) ks"

fun valid :: "'a option list \<Rightarrow> 'a list" where
  "valid [] = []"
| "valid (None # xs) = valid xs"
| "valid (Some x # xs) = x # valid xs"

text \<open>\<^verbatim>\<open>first\<close>, \<^verbatim>\<open>last\<close>, \<^verbatim>\<open>count\<close> and \<^verbatim>\<open>max\<close> all skip nulls.\<close>

definition agg_first :: "'a option list \<Rightarrow> 'a option" where
  "agg_first xs = (case valid xs of [] \<Rightarrow> None | x # _ \<Rightarrow> Some x)"

definition agg_last :: "'a option list \<Rightarrow> 'a option" where
  "agg_last xs = (case rev (valid xs) of [] \<Rightarrow> None | x # _ \<Rightarrow> Some x)"

definition agg_count :: "'a option list \<Rightarrow> int option" where
  "agg_count xs = Some (int (length (valid xs)))"

definition agg_max :: "rat option list \<Rightarrow> rat option" where
  "agg_max xs = (case valid xs of [] \<Rightarrow> None | x # ys \<Rightarrow> Some (fold max ys x))"

text \<open>The difference of two \<^verbatim>\<open>float64\<close> cells; null when either is null.\<close>

definition opt_minus :: "rat option \<Rightarrow> rat option \<Rightarrow> rat option" where
  "opt_minus a b = (case (a, b) of (Some x, Some y) \<Rightarrow> Some (float_sub x y) | _ \<Rightarrow> None)"

text \<open>
  \<^verbatim>\<open>Series.diff(-1)\<close>: each cell minus the cell of the next row of the whole frame; the
  last row gets null.
\<close>

fun diff_next :: "rat option list \<Rightarrow> rat option list" where
  "diff_next [] = []"
| "diff_next [x] = [None]"
| "diff_next (x # y # ys) = opt_minus x y # diff_next (y # ys)"

definition add_metrics :: "variant \<Rightarrow> cohort \<Rightarrow> cohort_row list \<Rightarrow> metric_row list" where
  "add_metrics v c df =
     (let cohort_keys = map (key_cohort c) df;
          episode_keys = map key_episode df;
          weight = map Weight_col df;
          wir = transform agg_count cohort_keys (map Weights_UpdatedDate_col df);
          psw = transform agg_first (map key_patient df) weight;
          tsw = transform agg_first episode_keys weight;
          tew = transform agg_last episode_keys weight;
          wgt_diff = diff_next (transform agg_first cohort_keys weight);
          mx = transform agg_max cohort_keys wgt_diff
      in map (\<lambda>i. \<lparr>usr = usr (df ! i), wgt = wgt (df ! i), trt = trt (df ! i),
                     month = month (df ! i), week = week (df ! i),
                     weigh_in_rate = wir ! i,
                     patient_starting_weight = psw ! i,
                     treatment_starting_weight = tsw ! i,
                     treatment_TBWL = opt_minus (tew ! i) (tsw ! i),
                     patient_TBWL = (case v of Analytics \<Rightarrow> map_option uminus (mx ! i) | Pandas \<Rightarrow> mx ! i)\<rparr>)
           [0..<length df])"

section \<open>drop_duplicates and the pipeline\<close>

text \<open>\<^verbatim>\<open>drop_duplicates()\<close> keeps the first of every set of equal rows; nulls compare equal.\<close>

fun drop_duplicates :: "'a list \<Rightarrow> 'a list" where
  "drop_duplicates [] = []"
| "drop_duplicates (x # xs) = x # drop_duplicates (filter (\<lambda>y. y \<noteq> x) xs)"

text \<open>The frame with all five metrics, before \<^verbatim>\<open>filters\<close>.\<close>

definition metrics_frame ::
  "variant \<Rightarrow> user list \<Rightarrow> weight_rec list \<Rightarrow> treatment list \<Rightarrow> cohort \<Rightarrow> error + metric_row list" where
  "metrics_frame v users weights treatments c =
     (case add_cohorts v (sort_values (merge_left users weights treatments)) of
        Inl e \<Rightarrow> Inl e
      | Inr df \<Rightarrow> Inr (add_metrics v c df))"

definition data_pipeline ::
  "variant \<Rightarrow> user list \<Rightarrow> weight_rec list \<Rightarrow> treatment list \<Rightarrow> cohort \<Rightarrow> string \<Rightarrow> int \<Rightarrow> int \<Rightarrow> int
     \<Rightarrow> error + metric_row list" where
  "data_pipeline v users weights treatments c gender min_age max_age clinic =
     (case metrics_frame v users weights treatments c of
        Inl e \<Rightarrow> Inl e
      | Inr df \<Rightarrow> Inr (drop_duplicates (filters df gender min_age max_age clinic)))"

text \<open>
  \<^verbatim>\<open>polars_DataModel.py\<close>, lines 157 to 166: the frame with the metrics goes through
  \<^verbatim>\<open>filters\<close>, is printed and returned as it is.
\<close>

definition polars_filter_and_return ::
  "'a merged_row_scheme list \<Rightarrow> string \<Rightarrow> int \<Rightarrow> int \<Rightarrow> int \<Rightarrow> 'a merged_row_scheme list" where
  "polars_filter_and_return df gender min_age max_age clinic =
     filters df gender min_age max_age clinic"

text \<open>
  \<^verbatim>\<open>polars_DataModel.py\<close>, lines 112 to 114: \<^verbatim>\<open>pl.col('Wts_UpdatedDate').count().over(keys)\<close>.
  A window is the set of rows with equal key columns, a null key being a value like any
  other, and \<^verbatim>\<open>count()\<close> gives every row the number of rows of its window: it does not
  look at the cells, so a null update timestamp is counted.
\<close>

definition polars_key ::
  "cohort \<Rightarrow> 'a cohort_row_scheme \<Rightarrow> int \<times> int option \<times> timestamp option \<times> int option" where
  "polars_key c r =
     (UID (usr r), TreatmentTypeID_col r, Treatment_StartDate_col r, cohort_col c r)"

definition polars_WIR :: "cohort \<Rightarrow> 'a cohort_row_scheme list \<Rightarrow> int list" where
  "polars_WIR c df =
     map (\<lambda>r. int (length (filter (\<lambda>x. polars_key c x = polars_key c r) df))) df"

section \<open>Notions used to state the properties\<close>

text \<open>The columns a row has from the join, whatever columns were added later.\<close>

definition base_row :: "'a merged_row_scheme \<Rightarrow> merged_row" where
  "base_row r = \<lparr>usr = usr r, wgt = wgt r, trt = trt r\<rparr>"

text \<open>The rows the two joins produce for one user.\<close>

definition user_rows :: "user \<Rightarrow> weight_rec list \<Rightarrow> treatment list \<Rightarrow> merged_row list" where
  "user_rows u weights treatments =
     concat (map (\<lambda>w. map (\<lambda>t. \<lparr>usr = u, wgt = w, trt = t\<rparr>)
                   (left_matches (filter (\<lambda>t. T_MasterUserID t = UID u) treatments)))
               (left_matches (filter (\<lambda>w. W_MasterUserID w = UID u) weights)))"

text \<open>
  Two rows of one episode: the same patient, treatment type and episode start. Two rows
  of one cohort group: moreover the same value in the cohort column. A row without an
  episode is in no group.
\<close>

definition same_episode :: "'a merged_row_scheme \<Rightarrow> 'b merged_row_scheme \<Rightarrow> bool" where
  "same_episode x r =
     (case (trt x, trt r) of
        (Some a, Some b) \<Rightarrow>
          UID (usr x) = UID (usr r) \<and> TreatmentTypeID a = TreatmentTypeID b
          \<and> Treatment_StartDate a = Treatment_StartDate b
      | _ \<Rightarrow> False)"

definition same_cohort_group :: "cohort \<Rightarrow> 'a cohort_row_scheme \<Rightarrow> 'b cohort_row_scheme \<Rightarrow> bool" where
  "same_cohort_group c x r =
     (same_episode x r \<and>
      (case c of
         Week \<Rightarrow> week x \<noteq> None \<and> week x = week r
       | Month \<Rightarrow> month x = month r
       | Clinic \<Rightarrow> ClinicID (usr x) = ClinicID (usr r)))"

text \<open>The elapsed time in days, fractional, as the specification's formulas read it.\<close>

definition datediff_days :: "int \<Rightarrow> rat" where
  "datediff_days d = of_int d / of_int ns_per_day"

section \<open>Example tables\<close>

definition ex_user :: "int \<Rightarrow> string \<Rightarrow> int \<Rightarrow> int \<Rightarrow> user" where
  "ex_user uid g a c =
     \<lparr>UID = uid, Gender = g, Birthday = 0, Age = a, ClinicID = c,
      UIDCreatedDate = 1000, User_IsActive = True\<rparr>"

text \<open>2023-01-01 00:00:00 in nanoseconds.\<close>

definition ex_day0 :: int where
  "ex_day0 = 1672531200000000000"

text \<open>A weight record of user \<open>u\<close> created \<open>days\<close> days after 2023-01-01.\<close>

definition ex_weight :: "int \<Rightarrow> rat \<Rightarrow> int \<Rightarrow> weight_rec" where
  "ex_weight u w days =
     \<lparr>W_MasterUserID = u, Weight = w, Weights_CreatedDate = ex_day0 + days * ns_per_day,
      Weights_UpdatedDate = Some (ex_day0 + days * ns_per_day),
      Weights_IsActive = True, Weights_IsDelete = False\<rparr>"

text \<open>An episode of treatment type 1 of user \<open>u\<close> that starts on 2023-01-01.\<close>

definition ex_treatment :: "int \<Rightarrow> treatment" where
  "ex_treatment u = \<lparr>T_MasterUserID = u, TreatmentTypeID = 1, Treatment_StartDate = ex_day0\<rparr>"

definition ex_frame :: "merged_row list" where
  "ex_frame =
     [\<lparr>usr = ex_user 1 ''Male'' 30 5066, wgt = None, trt = None\<rparr>,
      \<lparr>usr = ex_user 2 ''Female'' 17 5066, wgt = None, trt = None\<rparr>,
      \<lparr>usr = ex_user 3 ''Female'' 25 9999, wgt = None, trt = None\<rparr>]"

text \<open>A joined row of user 1 whose weight record is \<open>days\<close> days after the episode start.\<close>

definition ex_row :: "int \<Rightarrow> merged_row" where
  "ex_row days =
     \<lparr>usr = ex_user 1 ''Male'' 30 5066, wgt = Some (ex_weight 1 70 days),
      trt = Some (ex_treatment 1)\<rparr>"

text \<open>The frame of a successful run of the pipeline, or the empty frame.\<close>

definition rows_of :: "error + 'a list \<Rightarrow> 'a list" where
  "rows_of res = (case res of Inl e \<Rightarrow> [] | Inr df \<Rightarrow> df)"

text \<open>
  The scenario of the specification: one patient, one episode that starts on 2023-01-01,
  weigh-ins of 70 on 2023-01-02 and of 68 on 2023-01-10.
\<close>

definition ex_users :: "user list" where
  "ex_users = [ex_user 1 ''Male'' 30 5066]"

definition ex_weights :: "weight_rec list" where
  "ex_weights = [ex_weight 1 70 1, ex_weight 1 68 9]"

definition ex_treatments :: "treatment list" where
  "ex_treatments = [ex_treatment 1]"

definition ex_out :: "metric_row list" where
  "ex_out =
     rows_of (data_pipeline Analytics ex_users ex_weights ex_treatments Week ''all'' 18 72 5066)"

text \<open>An episode of treatment type \<open>ty\<close> of user \<open>u\<close> that starts \<open>days\<close> days after 2023-01-01.\<close>

definition ex_episode :: "int \<Rightarrow> int \<Rightarrow> int \<Rightarrow> treatment" where
  "ex_episode u ty days =
     \<lparr>T_MasterUserID = u, TreatmentTypeID = ty, Treatment_StartDate = ex_day0 + days * ns_per_day\<rparr>"

text \<open>
  Two patients, in no particular file order. Patient 1 has an episode of type 1 from
  2023-01-01, an episode of type 2 from 2023-01-31, and weigh-ins of 70, 69.5, 68 and 69
  after 1, 2, 9 and 40 days. Patient 2 has one episode from 2023-01-01 and weigh-ins of
  80 and 82.5 after 3 and 12 days.
\<close>

definition ex2_users :: "user list" where
  "ex2_users = [ex_user 2 ''Female'' 40 5066, ex_user 1 ''Male'' 30 5066]"

definition ex2_weights :: "weight_rec list" where
  "ex2_weights =
     [ex_weight 2 (165 / 2) 12, ex_weight 1 68 9, ex_weight 2 80 3, ex_weight 1 70 1,
      ex_weight 1 69 40, ex_weight 1 (139 / 2) 2]"

definition ex2_treatments :: "treatment list" where
  "ex2_treatments = [ex_episode 1 2 30, ex_episode 2 1 0, ex_episode 1 1 0]"

text \<open>
  The frame \<^verbatim>\<open>analytics_data_model.py\<close> computes from these tables with the weekly
  cohort, written out: patient 1 before patient 2, the episode of type 1 before the
  episode of type 2, the weigh-ins by creation time.
\<close>

definition ex2_rows :: "metric_row list" where
  "ex2_rows =
     [
      \<lparr>usr = ex_user 1 ''Male'' 30 5066, wgt = Some (ex_weight 1 70 1),
       trt = Some (ex_episode 1 1 0), month = 1, week = Some 1,
       weigh_in_rate = Some 2, patient_starting_weight = Some 70,
       treatment_starting_weight = Some 70, treatment_TBWL = Some (- 1),
       patient_TBWL = Some (- 2)\<rparr>,
      \<lparr>usr = ex_user 1 ''Male'' 30 5066, wgt = Some (ex_weight 1 (139 / 2) 2),
       trt = Some (ex_episode 1 1 0), month = 1, week = Some 1,
       weigh_in_rate = Some 2, patient_starting_weight = Some 70,
       treatment_starting_weight = Some 70, treatment_TBWL = Some (- 1),
       patient_TBWL = Some (- 2)\<rparr>,
      \<lparr>usr = ex_user 1 ''Male'' 30 5066, wgt = Some (ex_weight 1 68 9),
       trt = Some (ex_episode 1 1 0), month = 1, week = Some 2,
       weigh_in_rate = Some 1, patient_starting_weight = Some 70,
       treatment_starting_weight = Some 70, treatment_TBWL = Some (- 1),
       patient_TBWL = Some 1\<rparr>,
      \<lparr>usr = ex_user 1 ''Male'' 30 5066, wgt = Some (ex_weight 1 69 40),
       trt = Some (ex_episode 1 1 0), month = 2, week = Some 6,
       weigh_in_rate = Some 1, patient_starting_weight = Some 70,
       treatment_starting_weight = Some 70, treatment_TBWL = Some (- 1),
       patient_TBWL = Some 1\<rparr>,
      \<lparr>usr = ex_user 1 ''Male'' 30 5066, wgt = Some (ex_weight 1 70 1),
       trt = Some (ex_episode 1 2 30), month = 0, week = Some (- 4),
       weigh_in_rate = Some 1, patient_starting_weight = Some 70,
       treatment_starting_weight = Some 70, treatment_TBWL = Some (- 1),
       patient_TBWL = Some (- (1 / 2))\<rparr>,
      \<lparr>usr = ex_user 1 ''Male'' 30 5066, wgt = Some (ex_weight 1 (139 / 2) 2),
       trt = Some (ex_episode 1 2 30), month = 0, week = Some (- 3),
       weigh_in_rate = Some 1, patient_starting_weight = Some 70,
       treatment_starting_weight = Some 70, treatment_TBWL = Some (- 1),
       patient_TBWL = Some (- (3 / 2))\<rparr>,
      \<lparr>usr = ex_user 1 ''Male'' 30 5066, wgt = Some (ex_weight 1 68 9),
       trt = Some (ex_episode 1 2 30), month = 0, week = Some (- 2),
       weigh_in_rate = Some 1, patient_starting_weight = Some 70,
       treatment_starting_weight = Some 70, treatment_TBWL = Some (- 1),
       patient_TBWL = Some 1\<rparr>,
      \<lparr>usr = ex_user 1 ''Male'' 30 5066, wgt = Some (ex_weight 1 69 40),
       trt = Some (ex_episode 1 2 30), month = 1, week = Some 2,
       weigh_in_rate = Some 1, patient_starting_weight = Some 70,
       treatment_starting_weight = Some 70, treatment_TBWL = Some (- 1),
       patient_TBWL = Some 11\<rparr>,
      \<lparr>usr = ex_user 2 ''Female'' 40 5066, wgt = Some (ex_weight 2 80 3),
       trt = Some (ex_episode 2 1 0), month = 1, week = Some 1,
       weigh_in_rate = Some 1, patient_starting_weight = Some 80,
       treatment_starting_weight = Some 80, treatment_TBWL = Some (5 / 2),
       patient_TBWL = Some (5 / 2)\<rparr>,
      \<lparr>usr = ex_user 2 ''Female'' 40 5066, wgt = Some (ex_weight 2 (165 / 2) 12),
       trt = Some (ex_episode 2 1 0), month = 1, week = Some 2,
       weigh_in_rate = Some 1, patient_starting_weight = Some 80,
       treatment_starting_weight = Some 80, treatment_TBWL = Some (5 / 2),
       patient_TBWL = None\<rparr>]"

text \<open>A weight record whose update timestamp is empty.\<close>

definition ex_weight_no_update :: "int \<Rightarrow> rat \<Rightarrow> int \<Rightarrow> weight_rec" where
  "ex_weight_no_update u w days =
     \<lparr>W_MasterUserID = u, Weight = w, Weights_CreatedDate = ex_day0 + days * ns_per_day,
      Weights_UpdatedDate = None, Weights_IsActive = True, Weights_IsDelete = False\<rparr>"

section \<open>filters\<close>

text \<open>
  C10. A gender argument other than \<^verbatim>\<open>'all'\<close>, \<^verbatim>\<open>'Male'\<close> and \<^verbatim>\<open>'Female'\<close> restricts
  nothing: the result is the one for \<^verbatim>\<open>'all'\<close>, the rows that pass the age range and
  the clinic test.
\<close>

theorem filters_unlisted_gender:
  assumes "gender \<notin> {''all'', ''Male'', ''Female''}"
  shows "filters df gender min_age max_age clinic = filters df ''all'' min_age max_age clinic
       \<and> filters df gender min_age max_age clinic =
           filter (\<lambda>r. ClinicID (usr r) = clinic)
             (filter (\<lambda>r. Age (usr r) \<ge> min_age \<and> Age (usr r) \<le> max_age) df)"
  using assms by (simp add: filters_def)

theorem filters_unlisted_gender_witness:
  "''female'' \<notin> {''all'', ''Male'', ''Female''}
   \<and> filters ex_frame ''female'' 18 72 5066 = filters ex_frame ''all'' 18 72 5066
   \<and> filters ex_frame ''female'' 18 72 5066 =
       [\<lparr>usr = ex_user 1 ''Male'' 30 5066, wgt = None, trt = None\<rparr>]"
proof -
  have h: "''female'' \<notin> {''all'', ''Male'', ''Female''}" by simp
  show ?thesis
    using h filters_unlisted_gender [OF h, of ex_frame 18 72 5066]
    by (simp add: ex_frame_def ex_user_def filters_def)
qed

section \<open>The joins keep every user\<close>

lemma length_left_matches: "length (left_matches xs) = max (length xs) 1"
  by (cases xs) (simp_all add: left_matches_def)

lemma set_left_matches: "set (left_matches xs) = (if xs = [] then {None} else Some ` set xs)"
  by (cases xs) (simp_all add: left_matches_def)

lemma merge_treatments_append:
  "merge_treatments (xs @ ys) ts = merge_treatments xs ts @ merge_treatments ys ts"
  by (simp add: merge_treatments_def)

lemma merge_treatments_user:
  "merge_treatments (map (\<lambda>w. (u, w)) ws) ts =
     concat (map (\<lambda>w. map (\<lambda>t. \<lparr>usr = u, wgt = w, trt = t\<rparr>)
                   (left_matches (filter (\<lambda>t. T_MasterUserID t = UID u) ts))) ws)"
  by (simp add: merge_treatments_def comp_def)

lemma merge_left_Nil: "merge_left [] ws ts = []"
  by (simp add: merge_left_def merge_users_weights_def merge_treatments_def)

lemma merge_left_Cons: "merge_left (u # us) ws ts = user_rows u ws ts @ merge_left us ws ts"
  by (simp add: merge_left_def merge_users_weights_def merge_treatments_append
      merge_treatments_user user_rows_def)

lemma merge_left_concat: "merge_left us ws ts = concat (map (\<lambda>u. user_rows u ws ts) us)"
  by (induction us) (simp_all add: merge_left_Nil merge_left_Cons)

lemma usr_user_rows: "r \<in> set (user_rows u ws ts) \<Longrightarrow> usr r = u"
  by (auto simp: user_rows_def)

lemma length_concat_const:
  "(\<And>x. x \<in> set xs \<Longrightarrow> length (f x) = n) \<Longrightarrow> length (concat (map f xs)) = length xs * n"
  by (induction xs) simp_all

lemma length_user_rows:
  "length (user_rows u ws ts) =
     max (length (filter (\<lambda>w. W_MasterUserID w = UID u) ws)) 1 *
     max (length (filter (\<lambda>t. T_MasterUserID t = UID u) ts)) 1"
  unfolding user_rows_def
  by (subst length_concat_const[where n = "max (length (filter (\<lambda>t. T_MasterUserID t = UID u) ts)) 1"])
     (simp_all add: length_left_matches)

lemma filter_user_rows_same:
  "filter (\<lambda>r. UID (usr r) = UID u) (user_rows u ws ts) = user_rows u ws ts"
  by (rule filter_True) (simp add: usr_user_rows)

lemma filter_user_rows_other:
  "UID u' \<noteq> UID u \<Longrightarrow> filter (\<lambda>r. UID (usr r) = UID u) (user_rows u' ws ts) = []"
  by (rule filter_False) (simp add: usr_user_rows)

lemma filter_merge_left_absent:
  "UID u \<notin> UID ` set us \<Longrightarrow> filter (\<lambda>r. UID (usr r) = UID u) (merge_left us ws ts) = []"
  by (induction us) (auto simp: merge_left_Nil merge_left_Cons filter_user_rows_other)

lemma filter_merge_left_user:
  "distinct (map UID us) \<Longrightarrow> u \<in> set us \<Longrightarrow>
   filter (\<lambda>r. UID (usr r) = UID u) (merge_left us ws ts) = user_rows u ws ts"
proof (induction us)
  case Nil
  then show ?case by simp
next
  case (Cons a us)
  show ?case
  proof (cases "a = u")
    case True
    with Cons.prems have "UID u \<notin> UID ` set us" by auto
    with True show ?thesis
      by (simp add: merge_left_Cons filter_user_rows_same filter_merge_left_absent)
  next
    case False
    with Cons.prems have "u \<in> set us" "UID a \<noteq> UID u" "distinct (map UID us)" by auto
    with Cons.IH show ?thesis
      by (simp add: merge_left_Cons filter_user_rows_other)
  qed
qed

lemma user_rows_nonempty: "user_rows u ws ts \<noteq> []"
proof -
  have "0 < length (user_rows u ws ts)"
    unfolding length_user_rows by (intro mult_pos_pos) (simp_all add: less_max_iff_disj)
  then show ?thesis by auto
qed

text \<open>
  C6. A user with N weight records and M treatment episodes has exactly
  max(N,1) * max(M,1) rows in the joined frame, so at least one, whatever N and M are.
  The user key is unique in the users table.
\<close>

theorem merge_left_row_count:
  assumes "distinct (map UID users)" and "u \<in> set users"
  shows "length (filter (\<lambda>r. UID (usr r) = UID u) (merge_left users weights treatments)) =
           max (length (filter (\<lambda>w. W_MasterUserID w = UID u) weights)) 1 *
           max (length (filter (\<lambda>t. T_MasterUserID t = UID u) treatments)) 1
       \<and> (\<exists>r \<in> set (merge_left users weights treatments). usr r = u)"
proof -
  have eq: "filter (\<lambda>r. UID (usr r) = UID u) (merge_left users weights treatments) =
        user_rows u weights treatments"
    using assms by (rule filter_merge_left_user)
  obtain r where r: "r \<in> set (user_rows u weights treatments)"
    using user_rows_nonempty[of u weights treatments]
    by (cases "user_rows u weights treatments") auto
  then have "r \<in> set (merge_left users weights treatments)"
    using assms(2) by (auto simp: merge_left_concat)
  with r show ?thesis
    unfolding eq using usr_user_rows[OF r] by (auto simp: length_user_rows)
qed

theorem merge_left_row_count_witness:
  "distinct (map UID [ex_user 1 ''Male'' 30 5066, ex_user 2 ''Female'' 40 5066])
   \<and> ex_user 1 ''Male'' 30 5066 \<in> set [ex_user 1 ''Male'' 30 5066, ex_user 2 ''Female'' 40 5066]
   \<and> length (filter (\<lambda>r. UID (usr r) = UID (ex_user 1 ''Male'' 30 5066))
        (merge_left [ex_user 1 ''Male'' 30 5066, ex_user 2 ''Female'' 40 5066]
           [ex_weight 1 70 1, ex_weight 1 68 9] [ex_treatment 2])) = 2"
proof -
  have h1: "distinct (map UID [ex_user 1 ''Male'' 30 5066, ex_user 2 ''Female'' 40 5066])"
    by (simp add: ex_user_def)
  have h2: "ex_user 1 ''Male'' 30 5066 \<in> set [ex_user 1 ''Male'' 30 5066, ex_user 2 ''Female'' 40 5066]"
    by simp
  show ?thesis
    using h1 h2
      merge_left_row_count [OF h1 h2, of "[ex_weight 1 70 1, ex_weight 1 68 9]" "[ex_treatment 2]"]
    by (simp add: ex_user_def ex_weight_def ex_treatment_def)
qed

section \<open>A row without a timestamp ends the run\<close>

text \<open>
  C4. A user with an episode and no weight record gives a joined row whose weight
  timestamp is null. The month column is computed with \<^verbatim>\<open>math.floor\<close> on every cell, which
  raises on that row in both pandas files: the run ends with \<^verbatim>\<open>ValueError\<close> instead of
  giving the row null indices.
\<close>

theorem null_timestamp_raises:
  "data_pipeline Analytics [ex_user 1 ''Male'' 30 5066] [] [ex_treatment 1] Week ''all'' 18 72 5066
     = Inl ValueError
   \<and> data_pipeline Pandas [ex_user 1 ''Male'' 30 5066] [] [ex_treatment 1] Week ''all'' 18 72 5066
     = Inl ValueError"
  by code_simp

section \<open>float64 rounding\<close>

text \<open>
  The rounding error is at most half a unit in the last place, the sign is kept, and an
  integer below 2 to the 53 times a power of two is a \<^verbatim>\<open>float64\<close>.
\<close>

lemma round_half_even_error: "\<bar>of_int (round_half_even z) - z\<bar> \<le> 1 / 2"
proof -
  have "of_int \<lfloor>z\<rfloor> \<le> z" "z < of_int \<lfloor>z\<rfloor> + 1" by linarith+
  then show ?thesis
    by (auto simp: round_half_even_def Let_def abs_le_iff)
qed

lemma round_half_even_of_int [simp]: "round_half_even (of_int n) = n"
  by (simp add: round_half_even_def)

lemma float_exponent_le:
  assumes "0 < x"
  shows "2 powi (float_exponent x) \<le> x"
proof (cases "1 \<le> x")
  case True
  then have f: "0 < \<lfloor>x\<rfloor>" by linarith
  have b: "2 ^ nat (bitlen \<lfloor>x\<rfloor> - 1) \<le> \<lfloor>x\<rfloor>" using bitlen_bounds[OF f] by simp
  have nn: "0 \<le> bitlen \<lfloor>x\<rfloor> - 1" using f by (simp add: bitlen_alt_def)
  have "2 powi (float_exponent x) = (2::rat) ^ nat (bitlen \<lfloor>x\<rfloor> - 1)"
    using True nn by (simp add: float_exponent_def power_int_nonneg_exp)
  also have "\<dots> = of_int (2 ^ nat (bitlen \<lfloor>x\<rfloor> - 1))" by simp
  also have "\<dots> \<le> of_int \<lfloor>x\<rfloor>" using b by (simp only: of_int_le_iff)
  also have "\<dots> \<le> x" by simp
  finally show ?thesis .
next
  case False
  define c where "c = \<lceil>1 / x\<rceil>"
  define m where "m = bitlen (c - 1)"
  have y: "1 < 1 / x" using assms False by simp
  then have c2: "0 < c - 1" unfolding c_def by linarith
  have "c - 1 < 2 ^ nat m" using bitlen_bounds[OF c2] by (simp add: m_def)
  then have "c \<le> 2 ^ nat m" by simp
  then have "(of_int c :: rat) \<le> of_int (2 ^ nat m)" by (simp only: of_int_le_iff)
  then have cm: "(of_int c :: rat) \<le> 2 ^ nat m" by simp
  have "1 / x \<le> of_int c" unfolding c_def by simp
  with cm have "1 / x \<le> 2 ^ nat m" by linarith
  then have "1 \<le> 2 ^ nat m * x" using assms by (simp add: field_simps)
  then have le: "1 / 2 ^ nat m \<le> x" by (simp add: field_simps)
  have m0: "0 \<le> m" by (simp add: m_def bitlen_nonneg)
  have "2 powi (float_exponent x) = (2::rat) powi (- m)"
    using False by (simp add: float_exponent_def c_def m_def)
  also have "\<dots> = 1 / 2 powi m" by (rule power_int_minus_divide)
  also have "(2::rat) powi m = 2 ^ nat m"
    using m0 by (rule power_int_nonneg_exp)
  finally show ?thesis using le by simp
qed

lemma float_exponent_less:
  assumes "0 < x"
  shows "x < 2 powi (float_exponent x + 1)"
proof (cases "1 \<le> x")
  case True
  then have f: "0 < \<lfloor>x\<rfloor>" by linarith
  have b: "\<lfloor>x\<rfloor> < 2 ^ nat (bitlen \<lfloor>x\<rfloor>)" using bitlen_bounds[OF f] by simp
  have nn: "0 \<le> bitlen \<lfloor>x\<rfloor>" by (rule bitlen_nonneg)
  have "\<lfloor>x\<rfloor> + 1 \<le> 2 ^ nat (bitlen \<lfloor>x\<rfloor>)" using b by simp
  then have "(of_int (\<lfloor>x\<rfloor> + 1) :: rat) \<le> of_int (2 ^ nat (bitlen \<lfloor>x\<rfloor>))"
    by (simp only: of_int_le_iff)
  then have "of_int \<lfloor>x\<rfloor> + 1 \<le> (2::rat) ^ nat (bitlen \<lfloor>x\<rfloor>)" by simp
  moreover have "x < of_int \<lfloor>x\<rfloor> + 1" by linarith
  ultimately have "x < 2 ^ nat (bitlen \<lfloor>x\<rfloor>)" by linarith
  moreover have "2 powi (float_exponent x + 1) = (2::rat) ^ nat (bitlen \<lfloor>x\<rfloor>)"
    using True nn by (simp add: float_exponent_def power_int_nonneg_exp)
  ultimately show ?thesis by simp
next
  case False
  define c where "c = \<lceil>1 / x\<rceil>"
  define m where "m = bitlen (c - 1)"
  have y: "1 < 1 / x" using assms False by simp
  then have c2: "0 < c - 1" unfolding c_def by linarith
  have m1: "1 \<le> m" using c2 by (simp add: m_def bitlen_alt_def)
  have "2 ^ nat (m - 1) \<le> c - 1" using bitlen_bounds[OF c2] by (simp add: m_def)
  then have "(of_int (2 ^ nat (m - 1)) :: rat) \<le> of_int (c - 1)" by (simp only: of_int_le_iff)
  then have "(2::rat) ^ nat (m - 1) \<le> of_int c - 1" by simp
  moreover have "of_int c - 1 < 1 / x" unfolding c_def by linarith
  ultimately have "(2::rat) ^ nat (m - 1) < 1 / x" by linarith
  then have "2 ^ nat (m - 1) * x < 1" using assms by (simp add: field_simps)
  then have lt: "x < 1 / 2 ^ nat (m - 1)" by (simp add: field_simps)
  have "2 powi (float_exponent x + 1) = (2::rat) powi (- (m - 1))"
    using False by (simp add: float_exponent_def c_def m_def)
  also have "\<dots> = 1 / 2 powi (m - 1)" by (rule power_int_minus_divide)
  also have "(2::rat) powi (m - 1) = 2 ^ nat (m - 1)"
    using m1 by (intro power_int_nonneg_exp) simp
  finally show ?thesis using lt by simp
qed

lemma fl64_0 [simp]: "fl64 0 = 0"
  by (simp add: fl64_def)

lemma fl64_error: "\<bar>fl64 x - x\<bar> \<le> \<bar>x\<bar> / 2 ^ 53"
proof (cases "x = 0")
  case True
  then show ?thesis by simp
next
  case False
  define e where "e = float_exponent \<bar>x\<bar>"
  define ulp :: rat where "ulp = 2 powi (e - 52)"
  have up: "0 < ulp" by (simp add: ulp_def)
  have f: "fl64 x = of_int (round_half_even (x / ulp)) * ulp"
    using False by (simp add: fl64_def Let_def ulp_def e_def)
  have "fl64 x - x = (of_int (round_half_even (x / ulp)) - x / ulp) * ulp"
    using up by (simp add: f field_simps)
  then have "\<bar>fl64 x - x\<bar> = \<bar>of_int (round_half_even (x / ulp)) - x / ulp\<bar> * ulp"
    using up by (simp add: abs_mult)
  also have "\<dots> \<le> 1 / 2 * ulp"
    using up round_half_even_error[of "x / ulp"] by (intro mult_right_mono) simp_all
  also have "1 / 2 * ulp = 2 powi e / 2 ^ 53"
    by (simp add: ulp_def power_int_diff)
  also have "\<dots> \<le> \<bar>x\<bar> / 2 ^ 53"
    using float_exponent_le[of "\<bar>x\<bar>"] False by (simp add: e_def divide_right_mono)
  finally show ?thesis .
qed

lemma fl64_pos: "0 < x \<Longrightarrow> 0 < fl64 x"
proof -
  assume x: "0 < x"
  have "\<bar>fl64 x - x\<bar> \<le> \<bar>x\<bar> / 2 ^ 53" by (rule fl64_error)
  moreover have "\<bar>x\<bar> / 2 ^ 53 < x" using x by simp
  ultimately show ?thesis by linarith
qed

lemma fl64_neg: "x < 0 \<Longrightarrow> fl64 x < 0"
proof -
  assume x: "x < 0"
  have "\<bar>fl64 x - x\<bar> \<le> \<bar>x\<bar> / 2 ^ 53" by (rule fl64_error)
  moreover have "\<bar>x\<bar> / 2 ^ 53 < - x" using x by simp
  ultimately show ?thesis by linarith
qed

lemma fl64_less_0_iff [simp]: "fl64 x < 0 \<longleftrightarrow> x < 0"
proof -
  consider "x < 0" | "x = 0" | "0 < x" by linarith
  then show ?thesis
  proof cases
    case 1
    then show ?thesis using fl64_neg[of x] by simp
  next
    case 2
    then show ?thesis by simp
  next
    case 3
    then show ?thesis using fl64_pos[of x] by simp
  qed
qed

lemma fl64_greater_0_iff [simp]: "0 < fl64 x \<longleftrightarrow> 0 < x"
proof -
  consider "x < 0" | "x = 0" | "0 < x" by linarith
  then show ?thesis
  proof cases
    case 1
    then have "fl64 x < 0" by (rule fl64_neg)
    then have "\<not> 0 < fl64 x" by linarith
    moreover have "\<not> 0 < x" using 1 by linarith
    ultimately show ?thesis by simp
  next
    case 2
    then show ?thesis by simp
  next
    case 3
    then show ?thesis using fl64_pos[of x] by simp
  qed
qed

lemma fl64_exact:
  assumes "\<bar>m\<bar> < 2 ^ 53"
  shows "fl64 (of_int m * 2 powi k) = of_int m * 2 powi k"
proof (cases "m = 0")
  case True
  then show ?thesis by simp
next
  case False
  define x :: rat where "x = of_int m * 2 powi k"
  define e where "e = float_exponent \<bar>x\<bar>"
  have x0: "x \<noteq> 0" using False by (simp add: x_def)
  have ax: "\<bar>x\<bar> = of_int \<bar>m\<bar> * 2 powi k" by (simp add: x_def abs_mult)
  have "(of_int \<bar>m\<bar> :: rat) < of_int (2 ^ 53)" using assms by (simp only: of_int_less_iff)
  then have "(of_int \<bar>m\<bar> :: rat) < 2 ^ 53" by simp
  then have "\<bar>x\<bar> < 2 ^ 53 * 2 powi k" unfolding ax by (intro mult_strict_right_mono) simp_all
  also have "\<dots> = 2 powi (53 + k)" by (simp add: power_int_add)
  finally have "\<bar>x\<bar> < 2 powi (53 + k)" .
  moreover have "2 powi e \<le> \<bar>x\<bar>" unfolding e_def using x0 by (intro float_exponent_le) simp
  ultimately have "(2::rat) powi e < 2 powi (53 + k)" by linarith
  then have "e < 53 + k"
    using power_int_increasing[of "53 + k" e "2::rat"] by (cases "e < 53 + k") simp_all
  then have j: "0 \<le> k - (e - 52)" by simp
  define j where "j = nat (k - (e - 52))"
  have "x / 2 powi (e - 52) = of_int m * 2 powi (k - (e - 52))"
    by (simp add: x_def power_int_diff)
  also have "\<dots> = of_int (m * 2 ^ j)"
    using j by (simp add: j_def power_int_nonneg_exp)
  finally have q: "x / 2 powi (e - 52) = of_int (m * 2 ^ j)" .
  have "fl64 x = of_int (round_half_even (x / 2 powi (e - 52))) * 2 powi (e - 52)"
    using x0 by (simp add: fl64_def Let_def e_def)
  also have "\<dots> = x / 2 powi (e - 52) * 2 powi (e - 52)"
    unfolding q round_half_even_of_int ..
  also have "\<dots> = x" by simp
  finally show ?thesis by (simp add: x_def)
qed

lemma fl64_of_int:
  assumes "\<bar>m\<bar> < 2 ^ 53"
  shows "fl64 (of_int m) = of_int m"
  using fl64_exact[OF assms, of 0] by simp

lemma fl64_of_int_pow2:
  assumes "2 ^ k dvd d" and "\<bar>d\<bar> < 2 ^ (53 + k)"
  shows "fl64 (of_int d) = of_int d"
proof -
  obtain m where m: "d = 2 ^ k * m" using assms(1) by (auto simp: dvd_def)
  have "\<bar>m\<bar> * 2 ^ k < 2 ^ 53 * 2 ^ k"
    using assms(2) by (simp add: m abs_mult power_add mult.commute)
  then have am: "\<bar>m\<bar> < 2 ^ 53" by simp
  have "(of_int d :: rat) = of_int m * 2 powi (int k)" by (simp add: m)
  then show ?thesis using fl64_exact[OF am, of "int k"] by simp
qed

lemma floor_fl64_quotient:
  assumes "\<bar>p\<bar> < 2 ^ 53" and "0 < q"
  shows "\<lfloor>fl64 (of_int p / of_int q)\<rfloor> = p div q"
proof (cases "p mod q = 0")
  case True
  then have pq: "p = (p div q) * q" by (simp add: mod_eq_0_iff_dvd)
  have "\<bar>p div q\<bar> \<le> \<bar>p\<bar>"
  proof -
    have "\<bar>p\<bar> = \<bar>p div q\<bar> * q" using pq assms(2) by (metis abs_mult abs_of_pos)
    moreover have "\<bar>p div q\<bar> * 1 \<le> \<bar>p div q\<bar> * q" using assms(2) by (intro mult_left_mono) simp_all
    ultimately show ?thesis by simp
  qed
  then have n: "\<bar>p div q\<bar> < 2 ^ 53" using assms(1) by linarith
  have "(of_int p :: rat) / of_int q = of_int (p div q)"
  proof -
    have "(of_int p :: rat) = of_int (p div q) * of_int q" using pq by (metis of_int_mult)
    then show ?thesis using assms(2) by simp
  qed
  then show ?thesis using fl64_of_int[OF n] by simp
next
  case False
  define n where "n = p div q"
  define r where "r = p mod q"
  define y :: rat where "y = of_int p / of_int q"
  have "0 \<le> p mod q" "p mod q < q" using assms(2) by simp_all
  then have r: "1 \<le> r" "r \<le> q - 1"
    using False unfolding r_def by linarith+
  have p: "p = n * q + r" by (simp add: n_def r_def)
  have qr: "(0::rat) < of_int q" using assms(2) by simp
  have y: "y = of_int n + of_int r / of_int q"
    using qr by (simp add: y_def p field_simps)
  have lo: "of_int n + 1 / of_int q \<le> y"
    unfolding y using r(1) qr by (simp add: divide_right_mono)
  have hi: "y \<le> of_int n + 1 - 1 / of_int q"
  proof -
    have "(of_int r :: rat) \<le> of_int q - 1" using r(2) by (metis of_int_le_iff of_int_diff of_int_1)
    then have "(of_int r :: rat) / of_int q \<le> (of_int q - 1) / of_int q"
      using qr by (simp add: divide_right_mono)
    also have "\<dots> = 1 - 1 / of_int q" using qr by (simp add: field_simps)
    finally show ?thesis unfolding y by simp
  qed
  have "\<bar>y\<bar> = of_int \<bar>p\<bar> / of_int q" using qr by (simp add: y_def)
  moreover have "(of_int \<bar>p\<bar> :: rat) < 2 ^ 53"
    using assms(1) by (metis of_int_less_iff of_int_numeral of_int_power)
  ultimately have "\<bar>y\<bar> / 2 ^ 53 < 1 / of_int q"
    using qr by (simp add: field_simps)
  with fl64_error[of y] have e: "\<bar>fl64 y - y\<bar> < 1 / of_int q" by linarith
  have "of_int n < fl64 y" using e lo by linarith
  moreover have "fl64 y < of_int n + 1" using e hi by linarith
  ultimately have "\<lfloor>fl64 y\<rfloor> = n" by (simp add: floor_unique)
  then show ?thesis by (simp add: y_def n_def)
qed

lemma float_sub_less_0_iff [simp]: "float_sub a b < 0 \<longleftrightarrow> a < b"
  by (simp add: float_sub_def)

lemma float_sub_greater_0_iff [simp]: "0 < float_sub a b \<longleftrightarrow> b < a"
  by (simp add: float_sub_def)

lemma float_sub_self [simp]: "float_sub a a = 0"
  by (simp add: float_sub_def)

section \<open>Cohort indices\<close>

lemma floor_rat_numeral_div:
  "\<lfloor>(numeral a :: rat) / numeral b\<rfloor> = numeral a div numeral b"
  using floor_divide_of_int_eq [of "numeral a" "numeral b", where ?'a = rat] by simp

lemma floor_rat_neg_numeral_div:
  "\<lfloor>- ((numeral a :: rat) / numeral b)\<rfloor> = - numeral a div numeral b"
  using floor_divide_of_int_eq [of "- numeral a" "numeral b", where ?'a = rat] by simp

lemma ns_per_day_pos: "0 < ns_per_day"
  by (simp add: ns_per_day_def)

lemma floor_datediff_days: "\<lfloor>datediff_days d\<rfloor> = dt_days d"
  by (simp add: datediff_days_def dt_days_def floor_divide_of_int_eq)

lemma floor_div7: "\<lfloor>datediff_days d / 7\<rfloor> = dt_days d div 7"
proof -
  have "datediff_days d / 7 = of_int d / of_int (ns_per_day * 7)"
    by (simp add: datediff_days_def)
  then have "\<lfloor>datediff_days d / 7\<rfloor> = d div (ns_per_day * 7)"
    by (simp only: floor_divide_of_int_eq)
  also have "\<dots> = (d div ns_per_day) div 7"
    using ns_per_day_pos by (simp add: zdiv_zmult2_eq)
  finally show ?thesis by (simp add: dt_days_def)
qed

lemma floor_of_int_div7: "\<lfloor>(of_int n :: rat) / 7\<rfloor> = n div 7"
proof -
  have "(of_int n :: rat) / 7 = of_int n / of_int 7" by simp
  then show ?thesis by (simp only: floor_divide_of_int_eq)
qed

lemma month_arg:
  "(of_int d :: rat) / (3044 / 100 * of_int ns_per_day) = datediff_days d / (3044 / 100)"
  by (simp add: datediff_days_def)

lemma neg_floor_le: "(x::rat) < 0 \<Longrightarrow> 0 < c \<Longrightarrow> \<lfloor>x / c\<rfloor> + 1 \<le> 0"
proof -
  assume "x < 0" "0 < c"
  then have "x / c < 0" by (simp add: divide_neg_pos)
  then have "\<lfloor>x / c\<rfloor> < 0" by (simp add: floor_less_iff)
  then show ?thesis by linarith
qed

lemma datediff_days_neg: "d < 0 \<Longrightarrow> datediff_days d < 0"
  using ns_per_day_pos by (simp add: datediff_days_def divide_neg_pos)

lemma float_30_417_value: "float_30_417 = 1070203045826003 / 35184372088832"
  unfolding float_30_417_def by code_simp

lemma float_of_int_small: "\<bar>n\<bar> < 2 ^ 53 \<Longrightarrow> float_of_int n = of_int n"
  unfolding float_of_int_def by (rule fl64_of_int)

lemma float_of_int_seconds:
  assumes "1000000000 dvd d" and "\<bar>d\<bar> < 2 ^ 62"
  shows "float_of_int d = of_int d"
proof -
  have "(2::int) ^ 9 dvd 1000000000" by simp
  then have "(2::int) ^ 9 dvd d" using assms(1) by (rule dvd_trans)
  moreover have "\<bar>d\<bar> < 2 ^ (53 + 9)" using assms(2) by simp
  ultimately show ?thesis unfolding float_of_int_def by (rule fl64_of_int_pow2)
qed

lemma month_analytics_float:
  assumes "1000000000 dvd d" and "\<bar>d\<bar> < 2 ^ 62"
  shows "\<lfloor>float_div (float_of_int d) (float_of_int timedelta_30_44)\<rfloor>
         = \<lfloor>datediff_days d / (3044 / 100)\<rfloor>"
proof -
  obtain s where s: "d = 1000000000 * s" using assms(1) by (auto simp: dvd_def)
  have sb: "\<bar>s\<bar> < 2 ^ 53" using assms(2) by (simp add: s abs_mult)
  have fd: "float_of_int d = of_int d" using assms by (rule float_of_int_seconds)
  have fb: "float_of_int timedelta_30_44 = of_int timedelta_30_44"
    by (rule float_of_int_small) (simp add: timedelta_30_44_def)
  have q: "(of_int d :: rat) / of_int timedelta_30_44 = of_int s / of_int 2630016"
    by (simp add: s timedelta_30_44_def)
  have "\<lfloor>float_div (float_of_int d) (float_of_int timedelta_30_44)\<rfloor> = s div 2630016"
    unfolding float_div_def fd fb q using sb by (intro floor_fl64_quotient) simp_all
  moreover have "datediff_days d / (3044 / 100) = of_int s / of_int 2630016"
    by (simp add: datediff_days_def ns_per_day_def s)
  then have "\<lfloor>datediff_days d / (3044 / 100)\<rfloor> = s div 2630016"
    by (simp only: floor_divide_of_int_eq)
  ultimately show ?thesis by simp
qed

lemma week_pandas_float:
  assumes "\<bar>n\<bar> < 2 ^ 53"
  shows "\<lfloor>float_div (float_of_int n) (float_of_int 7)\<rfloor> = n div 7"
proof -
  have f7: "float_of_int 7 = of_int 7" by (rule float_of_int_small) simp
  show ?thesis
    unfolding float_div_def float_of_int_small[OF assms] f7
    using assms by (intro floor_fl64_quotient) simp_all
qed

lemma not_dvd_30417:
  assumes "n \<noteq> 0" and "\<bar>n\<bar> < 30417"
  shows "\<not> 30417 dvd 1000 * (n::int)"
proof
  assume "30417 dvd 1000 * n"
  then have "30417 dvd 7513 * (1000 * n)" by (rule dvd_mult)
  moreover have "(30417::int) dvd 30417 * (247 * n)" by (rule dvd_triv_left)
  ultimately have "30417 dvd 7513 * (1000 * n) - 30417 * (247 * n)" by (rule dvd_diff)
  moreover have "7513 * (1000 * n) - 30417 * (247 * n) = n" by simp
  ultimately have "30417 dvd n" by simp
  then have "30417 \<le> \<bar>n\<bar>" using dvd_imp_le_int[OF assms(1), of 30417] by simp
  with assms(2) show False by simp
qed

lemma month_pandas_float:
  assumes "\<bar>n\<bar> < 30417"
  shows "\<lfloor>float_div (float_of_int n) float_30_417\<rfloor> = \<lfloor>(of_int n :: rat) / (30417 / 1000)\<rfloor>"
proof (cases "n = 0")
  case True
  then show ?thesis by (simp add: float_div_def float_of_int_def)
next
  case False
  define a :: rat where "a = of_int n"
  define y where "y = a / (1070203045826003 / 35184372088832)"
  define y0 where "y0 = a / (30417 / 1000)"
  define m where "m = (1000 * n) div 30417"
  define r where "r = (1000 * n) mod 30417"
  have nb: "\<bar>n\<bar> < 2 ^ 53" using assms by simp
  have ab: "- 30417 < a" "a < 30417"
    using assms unfolding a_def by (simp_all add: abs_less_iff)
  have "0 \<le> r" "r < 30417" by (simp_all add: r_def)
  moreover have "r \<noteq> 0" using not_dvd_30417[OF False assms] by (simp add: r_def dvd_eq_mod_eq_0)
  ultimately have r: "1 \<le> r" "r \<le> 30416" by linarith+
  have n1000: "1000 * n = m * 30417 + r" by (simp add: m_def r_def)
  have "(of_int (1000 * n) :: rat) = of_int (m * 30417 + r)" by (simp only: n1000)
  then have "1000 * a = of_int m * 30417 + of_int r" by (simp add: a_def)
  then have y0: "y0 = of_int m + of_int r / 30417" by (simp add: y0_def field_simps)
  have rr: "(1::rat) \<le> of_int r" "(of_int r :: rat) \<le> 30416"
    using r by (metis of_int_le_iff of_int_1, metis of_int_le_iff of_int_numeral)
  have lo: "of_int m + 1 / 30417 \<le> y0" unfolding y0 using rr(1) by (simp add: divide_right_mono)
  have hi: "y0 \<le> of_int m + 30416 / 30417" unfolding y0 using rr(2) by (simp add: divide_right_mono)
  have d1: "y0 - 1 / 10000000000 \<le> y" "y \<le> y0 + 1 / 10000000000"
    using ab unfolding y_def y0_def by (simp_all add: field_simps)
  have yb: "\<bar>y\<bar> \<le> 1001"
    using ab unfolding y_def by (simp add: abs_le_iff field_simps)
  have "\<bar>fl64 y - y\<bar> \<le> \<bar>y\<bar> / 2 ^ 53" by (rule fl64_error)
  also have "\<dots> \<le> 1001 / 2 ^ 53" using yb by (simp add: divide_right_mono)
  also have "\<dots> \<le> 1 / 10000000000" by simp
  finally have e: "\<bar>fl64 y - y\<bar> \<le> 1 / 10000000000" .
  have d2: "y - 1 / 10000000000 \<le> fl64 y" "fl64 y \<le> y + 1 / 10000000000"
    using e by linarith+
  have "of_int m < fl64 y" using d1(1) d2(1) lo by linarith
  moreover have "fl64 y < of_int m + 1" using d1(2) d2(2) hi by linarith
  ultimately have "\<lfloor>fl64 y\<rfloor> = m" by (simp add: floor_unique)
  moreover have "\<lfloor>y0\<rfloor> = m"
  proof -
    have "of_int m \<le> y0" using lo by simp
    moreover have "y0 < of_int m + 1" using hi by simp
    ultimately show ?thesis by (simp add: floor_unique)
  qed
  ultimately show ?thesis
    by (simp add: float_div_def float_of_int_small[OF nb] float_30_417_value y_def y0_def a_def)
qed

lemma div_bound:
  assumes "\<bar>d\<bar> < k * n" and "0 < (n::int)"
  shows "\<bar>d div n\<bar> \<le> k"
proof -
  have lo: "(- k) * n \<le> d" and hi: "d \<le> k * n" using assms(1) by simp_all
  have "((- k) * n) div n \<le> d div n" using lo assms(2) by (rule zdiv_mono1)
  moreover have "((- k) * n) div n = - k"
    using assms(2) by (intro nonzero_mult_div_cancel_right) simp
  moreover have "d div n \<le> (k * n) div n" using hi assms(2) by (rule zdiv_mono1)
  moreover have "(k * n) div n = k"
    using assms(2) by (intro nonzero_mult_div_cancel_right) simp
  ultimately show ?thesis by linarith
qed

text \<open>
  The float quotient can land on the next integer when the timestamps are finer than a
  second: a difference one nanosecond short of five times 30.44 days is converted to the
  \<^verbatim>\<open>float64\<close> of five times 30.44 days, and the row is in month 6, not 5.
\<close>

lemma month_float_division_rounds_up:
  "month_col Analytics
     \<lparr>usr = ex_user 1 ''Male'' 30 5066,
      wgt = Some \<lparr>W_MasterUserID = 1, Weight = 70,
                   Weights_CreatedDate = ex_day0 + 13150079999999999,
                   Weights_UpdatedDate = None, Weights_IsActive = True, Weights_IsDelete = False\<rparr>,
      trt = Some (ex_treatment 1)\<rparr> = Inr 6
   \<and> \<lfloor>datediff_days 13150079999999999 / (3044 / 100)\<rfloor> + 1 = 5"
  by code_simp

text \<open>
  C5, as amended. For a joined row whose two timestamps are a whole number of seconds
  apart, less than 30000 days, \<^verbatim>\<open>analytics_data_model.py\<close> gives
  month = floor(datediff_days / 30.44) + 1 and week = floor(datediff_days / 7) + 1, the
  1-based convention on both, on the exact fractional day difference;
  \<^verbatim>\<open>pandas_DataModel.py\<close> gives the 0-based week = floor(datediff_days / 7) and
  month = floor(floor(datediff_days) / 30.417), on whole days. The quotients are
  \<^verbatim>\<open>float64\<close> quotients; within these bounds their floors are the floors of the exact
  quotients. Nothing is clamped: a negative difference gives an index of at most 0 in the
  first file and a negative index in the second.
\<close>

theorem cohort_index_formulas:
  assumes "datediff r = Some d" and "1000000000 dvd d" and "\<bar>d\<bar> < 30000 * ns_per_day"
  shows "month_col Analytics r = Inr (\<lfloor>datediff_days d / (3044 / 100)\<rfloor> + 1)
       \<and> week_col Analytics r = Inr (Some (\<lfloor>datediff_days d / 7\<rfloor> + 1))
       \<and> month_col Pandas r = Inr \<lfloor>(of_int \<lfloor>datediff_days d\<rfloor> :: rat) / (30417 / 1000)\<rfloor>
       \<and> week_col Pandas r = Inr (Some \<lfloor>datediff_days d / 7\<rfloor>)
       \<and> (d < 0 \<longrightarrow>
            \<lfloor>datediff_days d / (3044 / 100)\<rfloor> + 1 \<le> 0 \<and> \<lfloor>datediff_days d / 7\<rfloor> + 1 \<le> 0
            \<and> \<lfloor>of_int \<lfloor>datediff_days d\<rfloor> / (30417 / 1000 :: rat)\<rfloor> < 0
            \<and> \<lfloor>datediff_days d / 7\<rfloor> < 0)"
proof -
  have b62: "\<bar>d\<bar> < 2 ^ 62" using assms(3) by (simp add: ns_per_day_def)
  have days: "\<bar>dt_days d\<bar> \<le> 30000"
    unfolding dt_days_def using assms(3) ns_per_day_pos by (rule div_bound)
  have days1: "\<bar>dt_days d\<bar> < 30417" and days2: "\<bar>dt_days d\<bar> < 2 ^ 53"
    using days by simp_all
  have m: "month_col Analytics r = Inr (\<lfloor>datediff_days d / (3044 / 100)\<rfloor> + 1)"
    unfolding month_col.simps assms(1) option.map math_floor_def
    by (simp add: month_analytics_float[OF assms(2) b62])
  have w: "week_col Analytics r = Inr (Some (\<lfloor>datediff_days d / 7\<rfloor> + 1))"
    using assms(1) by (simp add: floor_div7)
  have pm: "month_col Pandas r = Inr \<lfloor>(of_int \<lfloor>datediff_days d\<rfloor> :: rat) / (30417 / 1000)\<rfloor>"
    unfolding month_col.simps assms(1) option.map math_floor_def floor_datediff_days
    by (simp add: month_pandas_float[OF days1])
  have pw: "week_col Pandas r = Inr (Some \<lfloor>datediff_days d / 7\<rfloor>)"
    unfolding week_col.simps assms(1) option.map math_floor_def
    by (simp add: week_pandas_float[OF days2] floor_div7)
  have neg: "\<lfloor>datediff_days d / (3044 / 100)\<rfloor> + 1 \<le> 0 \<and> \<lfloor>datediff_days d / 7\<rfloor> + 1 \<le> 0
       \<and> \<lfloor>of_int \<lfloor>datediff_days d\<rfloor> / (30417 / 1000 :: rat)\<rfloor> < 0
       \<and> \<lfloor>datediff_days d / 7\<rfloor> < 0" if "d < 0"
  proof -
    have dd: "datediff_days d < 0" using that by (rule datediff_days_neg)
    have a: "\<lfloor>datediff_days d / (3044 / 100)\<rfloor> + 1 \<le> 0"
      using dd by (intro neg_floor_le) simp_all
    have b: "\<lfloor>datediff_days d / 7\<rfloor> + 1 \<le> 0"
      using dd by (intro neg_floor_le) simp_all
    have "\<lfloor>datediff_days d\<rfloor> < 0" using dd by (simp add: floor_less_iff)
    then have "(of_int \<lfloor>datediff_days d\<rfloor> :: rat) < 0" by simp
    then have c: "\<lfloor>of_int \<lfloor>datediff_days d\<rfloor> / (30417 / 1000 :: rat)\<rfloor> + 1 \<le> 0"
      by (intro neg_floor_le) simp_all
    from a b c show ?thesis by linarith
  qed
  from m w pm pw neg show ?thesis by blast
qed

theorem cohort_index_formulas_witness:
  "datediff (ex_row (- 8)) = Some (- 691200000000000)
   \<and> (1000000000 :: int) dvd - 691200000000000
   \<and> \<bar>- 691200000000000 :: int\<bar> < 30000 * ns_per_day
   \<and> (- 691200000000000 :: int) < 0
   \<and> month_col Analytics (ex_row (- 8)) = Inr 0
   \<and> week_col Analytics (ex_row (- 8)) = Inr (Some (- 1))
   \<and> month_col Pandas (ex_row (- 8)) = Inr (- 1)
   \<and> week_col Pandas (ex_row (- 8)) = Inr (Some (- 2))"
proof -
  have h: "datediff (ex_row (- 8)) = Some (- 691200000000000)"
    by (simp add: datediff_def ex_row_def ex_weight_def ex_treatment_def ns_per_day_def)
  have h2: "(1000000000 :: int) dvd - 691200000000000" by simp
  have h3: "\<bar>- 691200000000000 :: int\<bar> < 30000 * ns_per_day" by (simp add: ns_per_day_def)
  have dd: "datediff_days (- 691200000000000) = - 8"
    by (simp add: datediff_days_def ns_per_day_def)
  show ?thesis
    using h h2 h3 cohort_index_formulas [OF h h2 h3]
    by (simp add: dd floor_rat_numeral_div floor_rat_neg_numeral_div)
qed

text \<open>
  C5 as stated fails in each file. In \<^verbatim>\<open>analytics_data_model.py\<close> a weigh-in one day
  before the episode start gets month 0 and week 0, which are not negative. In
  \<^verbatim>\<open>pandas_DataModel.py\<close> a weigh-in 213 days after the start gets month 7, while
  floor(213 / 30.44) is 6.
\<close>

theorem negative_datediff_index_counterexample:
  "datediff (ex_row (- 1)) = Some (- ns_per_day) \<and> datediff_days (- ns_per_day) = - 1
   \<and> month_col Analytics (ex_row (- 1)) = Inr 0
   \<and> week_col Analytics (ex_row (- 1)) = Inr (Some 0)
   \<and> datediff (ex_row 213) = Some (213 * ns_per_day) \<and> datediff_days (213 * ns_per_day) = 213
   \<and> month_col Pandas (ex_row 213) = Inr 7 \<and> \<lfloor>(213 :: rat) / (3044 / 100)\<rfloor> = 6"
  by code_simp

section \<open>The forward difference runs over the whole frame\<close>

text \<open>
  C2. \<^verbatim>\<open>diff(-1)\<close> is applied to the whole column, not per episode. With two patients
  of one weigh-in each, the first patient's only cohort group, the last of the episode,
  gets 10 from 70 - 80, the other patient's weight. With one patient who weighs in twice
  in the same week, the last group has two rows, the first of them has difference 0, and
  every row of the group gets 0. In neither case the value is null.
\<close>

theorem last_cohort_group_not_null:
  "map patient_TBWL (rows_of (data_pipeline Analytics
      [ex_user 1 ''Male'' 30 5066, ex_user 2 ''Female'' 40 5066]
      [ex_weight 1 70 1, ex_weight 2 80 1] [ex_treatment 1, ex_treatment 2]
      Week ''all'' 18 72 5066)) = [Some 10, None]
   \<and> map patient_TBWL (rows_of (data_pipeline Analytics
      [ex_user 1 ''Male'' 30 5066] [ex_weight 1 70 1, ex_weight 1 68 2] [ex_treatment 1]
      Week ''all'' 18 72 5066)) = [Some 0, Some 0]"
  by code_simp

section \<open>The polars file returns the filtered frame\<close>

text \<open>
  C9. Two equal weight records give two equal rows in the frame with the metrics: every
  stage before the filter treats equal rows alike. The pandas files end with
  \<^verbatim>\<open>drop_duplicates()\<close> and return one row; \<^verbatim>\<open>polars_DataModel.py\<close> returns the filtered
  frame, with both.
\<close>

theorem polars_returns_duplicates:
  "length (polars_filter_and_return (rows_of (metrics_frame Pandas
      [ex_user 1 ''Male'' 30 5066] [ex_weight 1 70 1, ex_weight 1 70 1] [ex_treatment 1] Week))
      ''all'' 18 72 5066) = 2
   \<and> \<not> distinct (polars_filter_and_return (rows_of (metrics_frame Pandas
      [ex_user 1 ''Male'' 30 5066] [ex_weight 1 70 1, ex_weight 1 70 1] [ex_treatment 1] Week))
      ''all'' 18 72 5066)
   \<and> length (rows_of (data_pipeline Pandas
      [ex_user 1 ''Male'' 30 5066] [ex_weight 1 70 1, ex_weight 1 70 1] [ex_treatment 1] Week
      ''all'' 18 72 5066)) = 1"
  by code_simp

section \<open>Rows and columns of a successful run\<close>


lemma traverse_Inr: "traverse f xs = Inr ys \<Longrightarrow> list_all2 (\<lambda>x y. f x = Inr y) xs ys"
  by (induction xs arbitrary: ys) (auto split: sum.splits)

lemma month_col_Inr: "month_col v r = Inr m \<Longrightarrow> datediff r \<noteq> None"
  by (cases v; cases "datediff r") (simp_all add: math_floor_def)

lemma datediff_Some: "datediff r \<noteq> None \<Longrightarrow> wgt r \<noteq> None \<and> trt r \<noteq> None"
  by (auto simp: datediff_def split: option.splits)

lemma week_col_Inr: "week_col v r = Inr w \<Longrightarrow> datediff r \<noteq> None \<Longrightarrow> w \<noteq> None"
  by (cases v) (auto simp: math_floor_def split: sum.splits)

lemma base_row_merged [simp]: "base_row (r :: merged_row) = r"
  by (simp add: base_row_def)

lemma add_cohorts_Inr:
  assumes "add_cohorts v df = Inr tbl"
  shows "map base_row tbl = df"
    and "\<forall>r\<in>set tbl. wgt r \<noteq> None \<and> trt r \<noteq> None \<and> week r \<noteq> None"
proof -
  obtain ms ws where ms: "traverse (month_col v) df = Inr ms"
    and ws: "traverse (week_col v) df = Inr ws"
    and tbl: "tbl = map (\<lambda>i. \<lparr>usr = usr (df ! i), wgt = wgt (df ! i), trt = trt (df ! i),
                               month = ms ! i, week = ws ! i\<rparr>) [0..<length df]"
    using assms by (auto simp: add_cohorts_def split: sum.splits if_splits)
  have "map base_row tbl = map (\<lambda>i. df ! i) [0..<length df]"
    unfolding tbl by (simp add: base_row_def)
  then show "map base_row tbl = df" by (simp add: map_nth)
  have m2: "list_all2 (\<lambda>x y. month_col v x = Inr y) df ms" using ms by (rule traverse_Inr)
  have w2: "list_all2 (\<lambda>x y. week_col v x = Inr y) df ws" using ws by (rule traverse_Inr)
  show "\<forall>r\<in>set tbl. wgt r \<noteq> None \<and> trt r \<noteq> None \<and> week r \<noteq> None"
  proof
    fix r assume "r \<in> set tbl"
    then obtain i where i: "i < length df"
      and r: "r = \<lparr>usr = usr (df ! i), wgt = wgt (df ! i), trt = trt (df ! i),
                               month = ms ! i, week = ws ! i\<rparr>"
      unfolding tbl by auto
    have "month_col v (df ! i) = Inr (ms ! i)" by (rule list_all2_nthD[OF m2 i])
    then have dd: "datediff (df ! i) \<noteq> None" by (rule month_col_Inr)
    have "week_col v (df ! i) = Inr (ws ! i)" by (rule list_all2_nthD[OF w2 i])
    then have "ws ! i \<noteq> None" using dd by (rule week_col_Inr)
    with datediff_Some[OF dd] show "wgt r \<noteq> None \<and> trt r \<noteq> None \<and> week r \<noteq> None"
      by (simp add: r)
  qed
qed

lemma length_transform [simp]: "length (transform agg ks vs) = length ks"
  by (simp add: transform_def)

lemma length_diff_next [simp]: "length (diff_next xs) = length xs"
  by (induction xs rule: diff_next.induct) simp_all

lemma map_nth_upt: "length xs = n \<Longrightarrow> map (\<lambda>i. xs ! i) [0..<n] = xs"
  using map_nth[of xs] by simp

lemma length_add_metrics [simp]: "length (add_metrics v c df) = length df"
  by (simp add: add_metrics_def Let_def)

lemma map_base_add_metrics: "map base_row (add_metrics v c df) = map base_row df"
  by (rule nth_equalityI) (simp_all add: add_metrics_def Let_def base_row_def)

lemma map_Weight_add_metrics: "map Weight_col (add_metrics v c df) = map Weight_col df"
  by (rule nth_equalityI) (simp_all add: add_metrics_def Let_def Weight_col_def)

lemma map_Updated_add_metrics:
  "map Weights_UpdatedDate_col (add_metrics v c df) = map Weights_UpdatedDate_col df"
  by (rule nth_equalityI) (simp_all add: add_metrics_def Let_def Weights_UpdatedDate_col_def split: option.splits)

lemma map_key_patient_add_metrics: "map key_patient (add_metrics v c df) = map key_patient df"
  by (rule nth_equalityI) (simp_all add: add_metrics_def Let_def key_patient_def)

lemma map_key_episode_add_metrics: "map key_episode (add_metrics v c df) = map key_episode df"
  by (rule nth_equalityI) (simp_all add: add_metrics_def Let_def key_episode_def split: option.splits)

lemma map_key_cohort_add_metrics: "map (key_cohort c') (add_metrics v c df) = map (key_cohort c') df"
  by (rule nth_equalityI) (simp_all add: add_metrics_def Let_def key_cohort_def cohort_col_def split: option.splits cohort.splits)

lemma col_weigh_in_rate:
  "map weigh_in_rate (add_metrics v c df) =
     transform agg_count (map (key_cohort c) df) (map Weights_UpdatedDate_col df)"
  by (rule nth_equalityI) (simp_all add: add_metrics_def Let_def)

lemma col_patient_starting_weight:
  "map patient_starting_weight (add_metrics v c df) =
     transform agg_first (map key_patient df) (map Weight_col df)"
  by (rule nth_equalityI) (simp_all add: add_metrics_def Let_def)

lemma col_treatment_starting_weight:
  "map treatment_starting_weight (add_metrics v c df) =
     transform agg_first (map key_episode df) (map Weight_col df)"
  by (rule nth_equalityI) (simp_all add: add_metrics_def Let_def)

lemma col_treatment_TBWL:
  "map treatment_TBWL (add_metrics v c df) =
     map2 opt_minus (transform agg_last (map key_episode df) (map Weight_col df))
                    (transform agg_first (map key_episode df) (map Weight_col df))"
  by (rule nth_equalityI) (simp_all add: add_metrics_def Let_def)


lemma map_week_add_metrics: "map week (add_metrics v c df) = map week df"
  by (rule nth_equalityI) (simp_all add: add_metrics_def Let_def)

lemma group_values_map:
  "group_values (map k xs) (map f xs) g = map f (filter (\<lambda>x. k x = Some g) xs)"
  by (induction xs) (simp_all add: group_values_def)

lemma transform_idx:
  "i < length xs \<Longrightarrow>
   transform agg (map key xs) (map val xs) ! i =
     (case key (xs ! i) of None \<Rightarrow> None
      | Some g \<Rightarrow> agg (map val (filter (\<lambda>x. key x = Some g) xs)))"
  by (simp add: transform_def group_values_map split: option.splits)

lemma transform_at:
  assumes "map col xs = transform agg (map key xs) (map val xs)" and "r \<in> set xs"
  shows "col r = (case key r of None \<Rightarrow> None
                  | Some g \<Rightarrow> agg (map val (filter (\<lambda>x. key x = Some g) xs)))"
proof -
  obtain i where i: "i < length xs" "xs ! i = r"
    using assms(2) by (auto simp: in_set_conv_nth)
  have "col r = map col xs ! i" using i by simp
  also have "\<dots> = transform agg (map key xs) (map val xs) ! i" by (simp only: assms(1))
  finally show ?thesis using i by (simp add: transform_idx)
qed

lemma valid_map_Some:
  "\<forall>x\<in>set xs. f x \<noteq> None \<Longrightarrow> valid (map f xs) = map (\<lambda>x. the (f x)) xs"
  by (induction xs) auto

lemma agg_first_hd:
  assumes "xs \<noteq> []" and "\<forall>x\<in>set xs. f x \<noteq> None"
  shows "agg_first (map f xs) = f (hd xs)"
proof -
  obtain a ys where xs: "xs = a # ys" using assms(1) by (cases xs) auto
  with assms(2) obtain y where "f a = Some y" by auto
  then show ?thesis by (simp add: agg_first_def xs)
qed

lemma agg_last_last:
  assumes "xs \<noteq> []" and "\<forall>x\<in>set xs. f x \<noteq> None"
  shows "agg_last (map f xs) = f (last xs)"
proof -
  have v: "rev (valid (map f xs)) = map (\<lambda>x. the (f x)) (rev xs)"
    using assms(2) by (simp add: valid_map_Some rev_map)
  obtain a ys where r: "rev xs = a # ys" using assms(1) by (cases "rev xs") auto
  then have a: "a = last xs" using assms(1) by (metis hd_rev list.sel(1))
  have "a \<in> set xs" using r by (metis list.set_intros(1) set_rev)
  with assms(2) obtain y where "f a = Some y" by auto
  then show ?thesis using a by (simp add: agg_last_def v r)
qed

lemma length_valid_map:
  "length (valid (map f xs)) = length (filter (\<lambda>x. f x \<noteq> None) xs)"
proof (induction xs)
  case Nil
  then show ?case by simp
next
  case (Cons a xs)
  then show ?case by (cases "f a") simp_all
qed

lemma set_drop_duplicates [simp]: "set (drop_duplicates xs) = set xs"
  by (induction xs rule: drop_duplicates.induct) auto

lemma distinct_drop_duplicates: "distinct (drop_duplicates xs)"
  by (induction xs rule: drop_duplicates.induct) auto

lemma set_filters: "set (filters df g lo hi c) \<subseteq> set df"
  by (auto simp: filters_def Let_def)

lemma metrics_frame_Inr:
  assumes "metrics_frame v users weights treatments c = Inr frame"
  obtains tbl where "add_cohorts v (sort_values (merge_left users weights treatments)) = Inr tbl"
    and "frame = add_metrics v c tbl"
  using assms by (auto simp: metrics_frame_def split: sum.splits)

lemma data_pipeline_Inr:
  assumes "data_pipeline v users weights treatments c g lo hi cl = Inr out"
  obtains frame where "metrics_frame v users weights treatments c = Inr frame"
    and "out = drop_duplicates (filters frame g lo hi cl)"
  using assms by (auto simp: data_pipeline_def split: sum.splits)

lemma data_pipeline_rows:
  assumes "data_pipeline v users weights treatments c g lo hi cl = Inr out" and "r \<in> set out"
  obtains frame where "metrics_frame v users weights treatments c = Inr frame"
    and "r \<in> set frame"
proof -
  obtain frame where f: "metrics_frame v users weights treatments c = Inr frame"
    and o: "out = drop_duplicates (filters frame g lo hi cl)"
    using assms(1) by (rule data_pipeline_Inr)
  have "r \<in> set frame" using assms(2) set_filters[of frame g lo hi cl] by (auto simp: o)
  with f show ?thesis by (rule that)
qed

lemma base_row_cols [simp]:
  "Weight_col (base_row r) = Weight_col r"
  "key_episode (base_row r) = key_episode r"
  "key_patient (base_row r) = key_patient r"
  "usr (base_row r) = usr r" "wgt (base_row r) = wgt r" "trt (base_row r) = trt r"
  by (simp_all add: base_row_def Weight_col_def key_episode_def key_patient_def split: option.splits)

lemma map_eq_set_prop:
  assumes "map f xs = map g ys" and "\<forall>y\<in>set ys. P (g y)" and "x \<in> set xs"
  shows "P (f x)"
proof -
  have "f x \<in> set (map f xs)" using assms(3) by simp
  then have "f x \<in> set (map g ys)" by (simp only: assms(1))
  then show ?thesis using assms(2) by auto
qed

lemma frame_facts:
  assumes "metrics_frame v users weights treatments c = Inr frame"
  shows "map base_row frame = sort_values (merge_left users weights treatments)"
    and "\<forall>r\<in>set frame. wgt r \<noteq> None \<and> trt r \<noteq> None \<and> week r \<noteq> None"
    and "map weigh_in_rate frame =
           transform agg_count (map (key_cohort c) frame) (map Weights_UpdatedDate_col frame)"
    and "map patient_starting_weight frame =
           transform agg_first (map key_patient frame) (map Weight_col frame)"
    and "map treatment_starting_weight frame =
           transform agg_first (map key_episode frame) (map Weight_col frame)"
    and "map treatment_TBWL frame =
           map2 opt_minus (transform agg_last (map key_episode frame) (map Weight_col frame))
                          (transform agg_first (map key_episode frame) (map Weight_col frame))"
proof -
  obtain tbl where t: "add_cohorts v (sort_values (merge_left users weights treatments)) = Inr tbl"
    and f: "frame = add_metrics v c tbl"
    using assms by (rule metrics_frame_Inr)
  note tf = add_cohorts_Inr[OF t]
  show "map base_row frame = sort_values (merge_left users weights treatments)"
    by (simp add: f map_base_add_metrics tf(1))
  have b: "map base_row frame = map base_row tbl" by (simp add: f map_base_add_metrics)
  have w: "map week frame = map week tbl" by (simp add: f map_week_add_metrics)
  show "\<forall>r\<in>set frame. wgt r \<noteq> None \<and> trt r \<noteq> None \<and> week r \<noteq> None"
  proof
    fix r assume r: "r \<in> set frame"
    have "wgt (base_row r) \<noteq> None \<and> trt (base_row r) \<noteq> None"
      by (rule map_eq_set_prop[OF b _ r, where P = "\<lambda>x. wgt x \<noteq> None \<and> trt x \<noteq> None"])
         (use tf(2) in simp)
    moreover have "week r \<noteq> None"
      by (rule map_eq_set_prop[OF w _ r, where P = "\<lambda>x. x \<noteq> None"]) (use tf(2) in simp)
    ultimately show "wgt r \<noteq> None \<and> trt r \<noteq> None \<and> week r \<noteq> None" by simp
  qed
  show "map weigh_in_rate frame =
           transform agg_count (map (key_cohort c) frame) (map Weights_UpdatedDate_col frame)"
    by (simp add: f col_weigh_in_rate map_key_cohort_add_metrics map_Updated_add_metrics)
  show "map patient_starting_weight frame =
           transform agg_first (map key_patient frame) (map Weight_col frame)"
    by (simp add: f col_patient_starting_weight map_key_patient_add_metrics map_Weight_add_metrics)
  show "map treatment_starting_weight frame =
           transform agg_first (map key_episode frame) (map Weight_col frame)"
    by (simp add: f col_treatment_starting_weight map_key_episode_add_metrics map_Weight_add_metrics)
  show "map treatment_TBWL frame =
           map2 opt_minus (transform agg_last (map key_episode frame) (map Weight_col frame))
                          (transform agg_first (map key_episode frame) (map Weight_col frame))"
    by (simp add: f col_treatment_TBWL map_key_episode_add_metrics map_Weight_add_metrics)
qed

lemma Weight_col_Some: "wgt r \<noteq> None \<Longrightarrow> Weight_col r \<noteq> None"
  by (simp add: Weight_col_def)

lemma key_episode_Some: "trt r \<noteq> None \<Longrightarrow> key_episode r \<noteq> None"
  by (auto simp: key_episode_def)

lemma key_cohort_Some: "trt r \<noteq> None \<Longrightarrow> week r \<noteq> None \<Longrightarrow> key_cohort c r \<noteq> None"
  by (cases c) (auto simp: key_cohort_def cohort_col_def)

lemma filter_base_row:
  assumes "\<And>x. P (base_row x) = Q x"
  shows "filter P (map base_row xs) = map base_row (filter Q xs)"
  by (induction xs) (simp_all add: assms)

lemma opt_minus_Some [simp]: "opt_minus (Some a) (Some b) = Some (float_sub a b)"
  by (simp add: opt_minus_def)

section \<open>Episode and cohort aggregates on a successful run\<close>

lemma ex_pipeline:
  "data_pipeline Analytics ex_users ex_weights ex_treatments Week ''all'' 18 72 5066 = Inr ex_out"
  by code_simp

lemma ex_out_len: "length ex_out = 2"
  by code_simp

section \<open>The patient starting weight\<close>

lemma hd_sort_key_min:
  assumes "x \<in> set xs"
  shows "f (hd (sort_key f xs)) \<le> f x"
proof -
  have s: "sorted (map f (sort_key f xs))" by (rule sorted_sort_key)
  have x: "x \<in> set (sort_key f xs)" using assms by simp
  then obtain y ys where ys: "sort_key f xs = y # ys" by (cases "sort_key f xs") auto
  with s x show ?thesis by auto
qed

lemma hd_sort_key_in:
  assumes "xs \<noteq> []"
  shows "hd (sort_key f xs) \<in> set xs"
proof -
  have "sort_key f xs \<noteq> []" using assms by (metis set_sort set_empty)
  then have "hd (sort_key f xs) \<in> set (sort_key f xs)" by (rule hd_in_set)
  then show ?thesis by simp
qed

lemma merged_row_eq:
  "(r :: merged_row) = \<lparr>usr = u, wgt = w, trt = t\<rparr> \<longleftrightarrow> usr r = u \<and> wgt r = w \<and> trt r = t"
  by (cases r) auto

lemma in_user_rows:
  "r \<in> set (user_rows u ws ts) \<longleftrightarrow>
     usr r = u \<and> wgt r \<in> set (left_matches (filter (\<lambda>w. W_MasterUserID w = UID u) ws))
           \<and> trt r \<in> set (left_matches (filter (\<lambda>t. T_MasterUserID t = UID u) ts))"
  unfolding user_rows_def by (auto simp: merged_row_eq image_iff)

lemma Some_in_left_matches: "Some x \<in> set (left_matches xs) \<longleftrightarrow> x \<in> set xs"
  by (auto simp: set_left_matches)

lemma in_merge_left:
  "r \<in> set (merge_left us ws ts) \<longleftrightarrow> (\<exists>u\<in>set us. r \<in> set (user_rows u ws ts))"
  by (auto simp: merge_left_concat)

lemma sort_cols_created:
  assumes "usr a = usr b" and "trt a = trt b" and "wgt a = Some w" and "wgt b = Some w'"
    and "sort_cols a \<le> sort_cols b"
  shows "Weights_CreatedDate w \<le> Weights_CreatedDate w'"
  using assms
  by (auto simp: sort_cols_def na_last_def Weights_CreatedDate_col_def
      Weights_UpdatedDate_col_def TreatmentTypeID_col_def Treatment_StartDate_col_def
      split: option.splits)

text \<open>
  C3. On every row of the output, \<^verbatim>\<open>patient_starting_weight\<close> is the weight of a record of
  the row's patient whose creation timestamp is the earliest among that patient's weight
  records: the weight on the patient's first row of the sorted frame, whatever the
  treatment episode or demographic filter.
\<close>

theorem patient_starting_weight_first_record:
  assumes "data_pipeline v users weights treatments c gender min_age max_age clinic = Inr out"
    and "r \<in> set out"
  shows "\<exists>w\<in>set weights.
           W_MasterUserID w = UID (usr r)
         \<and> (\<forall>w'\<in>set weights. W_MasterUserID w' = UID (usr r) \<longrightarrow>
               Weights_CreatedDate w \<le> Weights_CreatedDate w')
         \<and> patient_starting_weight r = Some (Weight w)
         \<and> Weight_col (hd (filter (\<lambda>x. UID (usr x) = UID (usr r))
                             (sort_values (merge_left users weights treatments)))) = Some (Weight w)"
proof -
  obtain frame where mf: "metrics_frame v users weights treatments c = Inr frame"
    and r: "r \<in> set frame"
    using assms by (rule data_pipeline_rows)
  note ff = frame_facts[OF mf]
  define P where "P = UID (usr r)"
  define G where "G = filter (\<lambda>x. UID (usr x) = P) frame"
  define J where "J = filter (\<lambda>x. UID (usr x) = P) (merge_left users weights treatments)"
  have rG: "r \<in> set G" using r by (simp add: G_def P_def)
  then have ne: "G \<noteq> []" by auto
  have some: "\<forall>x\<in>set G. Weight_col x \<noteq> None"
    using ff(2) by (auto simp: G_def Weight_col_Some)
  have psw: "patient_starting_weight r = Weight_col (hd G)"
    using transform_at[OF ff(4) r]
    by (simp add: key_patient_def P_def[symmetric] G_def[symmetric] agg_first_hd[OF ne some])
  have sorted_G: "filter (\<lambda>x. UID (usr x) = P) (sort_values (merge_left users weights treatments))
        = map base_row G"
    unfolding ff(1)[symmetric] G_def by (rule filter_base_row) simp
  have sort_J: "filter (\<lambda>x. UID (usr x) = P) (sort_values (merge_left users weights treatments))
        = sort_key sort_cols J"
    by (simp add: sort_values_def filter_sort J_def)
  define h where "h = hd (sort_key sort_cols J)"
  have mJ: "sort_key sort_cols J = map base_row G"
    using sort_J sorted_G by simp
  have h_base: "h = base_row (hd G)"
    unfolding h_def mJ using ne by (simp add: hd_map)
  have hdG: "hd G \<in> set G" using ne by simp
  then have hG: "wgt (hd G) \<noteq> None \<and> trt (hd G) \<noteq> None"
    using ff(2) by (auto simp: G_def)
  then obtain w where w: "wgt h = Some w" by (auto simp: h_base)
  have Jne: "J \<noteq> []"
  proof
    assume "J = []"
    then have "map base_row G = []" using sort_J sorted_G by simp
    with ne show False by simp
  qed
  have hJ: "h \<in> set J" unfolding h_def using Jne by (rule hd_sort_key_in)
  then have hP: "UID (usr h) = P" and hM: "h \<in> set (merge_left users weights treatments)"
    by (simp_all add: J_def)
  from hM obtain u where u: "u \<in> set users" and hu: "h \<in> set (user_rows u weights treatments)"
    by (auto simp: in_merge_left)
  have usr_h: "usr h = u" and wm: "Some w \<in> set (left_matches (filter (\<lambda>w. W_MasterUserID w = UID u) weights))"
    and tm: "trt h \<in> set (left_matches (filter (\<lambda>t. T_MasterUserID t = UID u) treatments))"
    using hu w by (auto simp: in_user_rows)
  have uP: "UID u = P" using hP usr_h by simp
  have w_in: "w \<in> set weights" and w_id: "W_MasterUserID w = P"
    using wm uP by (auto simp: Some_in_left_matches)
  have minimal: "Weights_CreatedDate w \<le> Weights_CreatedDate w'"
    if w': "w' \<in> set weights" "W_MasterUserID w' = P" for w'
  proof -
    define h' where "h' = \<lparr>usr = u, wgt = Some w', trt = trt h\<rparr>"
    have "h' \<in> set (user_rows u weights treatments)"
      using w' uP tm by (simp add: in_user_rows h'_def Some_in_left_matches)
    then have "h' \<in> set J"
      using u uP by (auto simp: J_def in_merge_left h'_def)
    then have "sort_cols h \<le> sort_cols h'" unfolding h_def by (rule hd_sort_key_min)
    then show ?thesis
      by (rule sort_cols_created[rotated 4]) (simp_all add: h'_def usr_h w)
  qed
  have wcol: "Weight_col (hd G) = Some (Weight w)"
    using w by (simp add: h_base Weight_col_def)
  have "Weight_col (hd (filter (\<lambda>x. UID (usr x) = P)
          (sort_values (merge_left users weights treatments)))) = Some (Weight w)"
    using ne wcol by (simp add: sorted_G hd_map)
  with w_in w_id minimal psw wcol show ?thesis
    unfolding P_def by auto
qed

theorem patient_starting_weight_first_record_witness:
  "data_pipeline Analytics ex_users ex_weights ex_treatments Week ''all'' 18 72 5066 = Inr ex_out
   \<and> last ex_out \<in> set ex_out
   \<and> Weight_col (last ex_out) = Some 68
   \<and> patient_starting_weight (last ex_out) = Some 70
   \<and> (\<exists>w\<in>set ex_weights.
           W_MasterUserID w = UID (usr (last ex_out))
         \<and> (\<forall>w'\<in>set ex_weights. W_MasterUserID w' = UID (usr (last ex_out)) \<longrightarrow>
               Weights_CreatedDate w \<le> Weights_CreatedDate w')
         \<and> patient_starting_weight (last ex_out) = Some (Weight w)
         \<and> Weight_col (hd (filter (\<lambda>x. UID (usr x) = UID (usr (last ex_out)))
                             (sort_values (merge_left ex_users ex_weights ex_treatments)))) = Some (Weight w))"
proof -
  have h1: "data_pipeline Analytics ex_users ex_weights ex_treatments Week ''all'' 18 72 5066 = Inr ex_out"
    by (rule ex_pipeline)
  have "ex_out \<noteq> []" using ex_out_len by auto
  then have h2: "last ex_out \<in> set ex_out" by (rule last_in_set)
  have v: "Weight_col (last ex_out) = Some 68 \<and> patient_starting_weight (last ex_out) = Some 70"
    by code_simp
  from h1 h2 v patient_starting_weight_first_record [OF h1 h2] show ?thesis by blast
qed

section \<open>The treatment starting weight and the treatment weight loss\<close>

lemma sorted_le_last: "sorted ys \<Longrightarrow> y \<in> set ys \<Longrightarrow> y \<le> last ys"
proof (induction ys)
  case Nil
  then show ?case by simp
next
  case (Cons a ys)
  then show ?case by (cases "ys = []") auto
qed

lemma last_sort_key_max:
  assumes "x \<in> set xs"
  shows "f x \<le> f (last (sort_key f xs))"
proof -
  have s: "sorted (map f (sort_key f xs))" by (rule sorted_sort_key)
  have ne: "sort_key f xs \<noteq> []" using assms by (metis empty_iff set_empty set_sort)
  have "f x \<in> set (map f (sort_key f xs))" using assms by simp
  with s have "f x \<le> last (map f (sort_key f xs))" by (rule sorted_le_last)
  then show ?thesis using ne by (simp add: last_map)
qed

lemma last_sort_key_in:
  assumes "xs \<noteq> []"
  shows "last (sort_key f xs) \<in> set xs"
proof -
  have "sort_key f xs \<noteq> []" using assms by (metis set_sort set_empty)
  then have "last (sort_key f xs) \<in> set (sort_key f xs)" by (rule last_in_set)
  then show ?thesis by simp
qed

lemma key_episode_same:
  assumes "trt r \<noteq> None"
  shows "key_episode x = key_episode r \<longleftrightarrow> same_episode x r"
  using assms by (auto simp: key_episode_def same_episode_def split: option.splits)

lemma same_episode_base_row [simp]: "same_episode (base_row x) r = same_episode x r"
  by (simp add: same_episode_def base_row_def split: option.splits)

lemma same_episode_cong:
  "usr a = usr b \<Longrightarrow> trt a = trt b \<Longrightarrow> same_episode a r = same_episode b r"
  by (simp add: same_episode_def split: option.splits)

lemma same_episode_UID: "same_episode x r \<Longrightarrow> UID (usr x) = UID (usr r)"
  by (auto simp: same_episode_def split: option.splits)

lemma set_frame_rows:
  assumes "map base_row frame = sort_values M" and "r \<in> set frame"
  shows "base_row r \<in> set M"
proof -
  have "base_row r \<in> set (map base_row frame)" using assms(2) by simp
  then show ?thesis by (simp add: assms(1) sort_values_def)
qed

text \<open>
  C7. On every row of the output, \<^verbatim>\<open>treatment_starting_weight\<close> is the weight on the first
  row, and \<^verbatim>\<open>treatment_TBWL\<close> the weight on the last row minus the weight on the first row,
  of the sorted rows with the row's patient, treatment type and episode start; the
  difference is the \<^verbatim>\<open>float64\<close> difference and is negative exactly when the last weight is
  the smaller. The joins pair every weight record of the patient with the episode, so the
  first row carries a record created no later, and the last row a record created no
  earlier, than any weight record of the patient.
\<close>

theorem treatment_TBWL_last_minus_first:
  assumes "data_pipeline v users weights treatments c gender min_age max_age clinic = Inr out"
    and "r \<in> set out"
  shows "\<exists>t w1 w2.
           trt r = Some t \<and> t \<in> set treatments \<and> T_MasterUserID t = UID (usr r)
         \<and> w1 \<in> set weights \<and> W_MasterUserID w1 = UID (usr r)
         \<and> w2 \<in> set weights \<and> W_MasterUserID w2 = UID (usr r)
         \<and> (\<forall>w\<in>set weights. W_MasterUserID w = UID (usr r) \<longrightarrow>
               Weights_CreatedDate w1 \<le> Weights_CreatedDate w
               \<and> Weights_CreatedDate w \<le> Weights_CreatedDate w2)
         \<and> Weight_col (hd (filter (\<lambda>x. same_episode x r)
                             (sort_values (merge_left users weights treatments)))) = Some (Weight w1)
         \<and> Weight_col (last (filter (\<lambda>x. same_episode x r)
                               (sort_values (merge_left users weights treatments)))) = Some (Weight w2)
         \<and> treatment_starting_weight r = Some (Weight w1)
         \<and> treatment_TBWL r = Some (float_sub (Weight w2) (Weight w1))
         \<and> (float_sub (Weight w2) (Weight w1) < 0 \<longleftrightarrow> Weight w2 < Weight w1)"
proof -
  obtain frame where mf: "metrics_frame v users weights treatments c = Inr frame"
    and r: "r \<in> set frame"
    using assms by (rule data_pipeline_rows)
  note ff = frame_facts[OF mf]
  define M where "M = merge_left users weights treatments"
  define P where "P = UID (usr r)"
  obtain t where t: "trt r = Some t" using ff(2) r by auto
  have tr: "trt r \<noteq> None" by (simp add: t)
  define E where "E = filter (\<lambda>x. same_episode x r) frame"
  have Ek: "filter (\<lambda>x. key_episode x = key_episode r) frame = E"
    unfolding E_def by (simp add: key_episode_same[OF tr])
  have rE: "r \<in> set E" using r t by (simp add: E_def same_episode_def)
  then have ne: "E \<noteq> []" by auto
  have some: "\<forall>x\<in>set E. Weight_col x \<noteq> None"
    using ff(2) by (auto simp: E_def Weight_col_Some)
  obtain g where g: "key_episode r = Some g"
    using tr key_episode_Some[of r] by auto
  have Eg: "filter (\<lambda>x. key_episode x = Some g) frame = E" using Ek by (simp add: g)
  define J where "J = filter (\<lambda>x. same_episode x r) M"
  have sorted_E: "filter (\<lambda>x. same_episode x r) (sort_values M) = map base_row E"
    unfolding ff(1)[symmetric, folded M_def] E_def by (rule filter_base_row) simp
  have sort_J: "filter (\<lambda>x. same_episode x r) (sort_values M) = sort_key sort_cols J"
    by (simp add: sort_values_def filter_sort J_def)
  have mJ: "sort_key sort_cols J = map base_row E" using sort_J sorted_E by simp
  define h where "h = hd (sort_key sort_cols J)"
  define l where "l = last (sort_key sort_cols J)"
  have h_base: "h = base_row (hd E)" unfolding h_def mJ using ne by (simp add: hd_map)
  have l_base: "l = base_row (last E)" unfolding l_def mJ using ne by (simp add: last_map)
  have Jne: "J \<noteq> []"
  proof
    assume "J = []"
    then have "map base_row E = []" using mJ by simp
    with ne show False by simp
  qed
  have hJ: "h \<in> set J" unfolding h_def using Jne by (rule hd_sort_key_in)
  have lJ: "l \<in> set J" unfolding l_def using Jne by (rule last_sort_key_in)
  have hdE: "hd E \<in> set frame" and lastE: "last E \<in> set frame"
    using ne hd_in_set[of E] last_in_set[of E] by (auto simp: E_def)
  obtain w1 where w1: "wgt h = Some w1" using ff(2) hdE by (auto simp: h_base)
  obtain w2 where w2: "wgt l = Some w2" using ff(2) lastE by (auto simp: l_base)
  have inJ: "W_MasterUserID w = P \<and> w \<in> set weights
      \<and> (\<forall>w'\<in>set weights. W_MasterUserID w' = P \<longrightarrow>
            \<lparr>usr = usr x, wgt = Some w', trt = trt x\<rparr> \<in> set J)"
    if x: "x \<in> set J" and w: "wgt x = Some w" for x w
  proof -
    have xM: "x \<in> set M" and xe: "same_episode x r" using x by (simp_all add: J_def)
    have xP: "UID (usr x) = P" using xe unfolding P_def by (rule same_episode_UID)
    obtain u where u: "u \<in> set users" and xu: "x \<in> set (user_rows u weights treatments)"
      using xM by (auto simp: M_def in_merge_left)
    have usr_x: "usr x = u"
      and wm: "Some w \<in> set (left_matches (filter (\<lambda>w. W_MasterUserID w = UID u) weights))"
      and tm: "trt x \<in> set (left_matches (filter (\<lambda>t. T_MasterUserID t = UID u) treatments))"
      using xu w by (auto simp: in_user_rows)
    have uP: "UID u = P" using xP usr_x by simp
    have a: "W_MasterUserID w = P \<and> w \<in> set weights"
      using wm uP by (auto simp: Some_in_left_matches)
    have b: "\<lparr>usr = usr x, wgt = Some w', trt = trt x\<rparr> \<in> set J"
      if w': "w' \<in> set weights" "W_MasterUserID w' = P" for w'
    proof -
      have "\<lparr>usr = usr x, wgt = Some w', trt = trt x\<rparr> \<in> set (user_rows u weights treatments)"
        using w' uP tm usr_x by (simp add: in_user_rows Some_in_left_matches)
      then have "\<lparr>usr = usr x, wgt = Some w', trt = trt x\<rparr> \<in> set M"
        using u by (auto simp: M_def in_merge_left)
      moreover have "same_episode \<lparr>usr = usr x, wgt = Some w', trt = trt x\<rparr> r"
        using xe same_episode_cong[of "\<lparr>usr = usr x, wgt = Some w', trt = trt x\<rparr>" x r] by simp
      ultimately show ?thesis by (simp add: J_def)
    qed
    from a b show ?thesis by blast
  qed
  note f1 = inJ[OF hJ w1] and f2 = inJ[OF lJ w2]
  have bounds: "Weights_CreatedDate w1 \<le> Weights_CreatedDate w'
      \<and> Weights_CreatedDate w' \<le> Weights_CreatedDate w2"
    if w': "w' \<in> set weights" "W_MasterUserID w' = P" for w'
  proof -
    define h' where "h' = \<lparr>usr = usr h, wgt = Some w', trt = trt h\<rparr>"
    define l' where "l' = \<lparr>usr = usr l, wgt = Some w', trt = trt l\<rparr>"
    have "h' \<in> set J" using f1 w' by (simp add: h'_def)
    then have "sort_cols h \<le> sort_cols h'" unfolding h_def by (rule hd_sort_key_min)
    then have a: "Weights_CreatedDate w1 \<le> Weights_CreatedDate w'"
      by (rule sort_cols_created[rotated 4]) (simp_all add: h'_def w1)
    have "l' \<in> set J" using f2 w' by (simp add: l'_def)
    then have "sort_cols l' \<le> sort_cols l" unfolding l_def by (rule last_sort_key_max)
    then have b: "Weights_CreatedDate w' \<le> Weights_CreatedDate w2"
      by (rule sort_cols_created[rotated 4]) (simp_all add: l'_def w2)
    from a b show ?thesis by simp
  qed
  have fw: "Weight_col (hd E) = Some (Weight w1)"
    using w1 by (simp add: h_base Weight_col_def)
  have lw: "Weight_col (last E) = Some (Weight w2)"
    using w2 by (simp add: l_base Weight_col_def)
  have tsw: "treatment_starting_weight r = Some (Weight w1)"
    using transform_at[OF ff(5) r] by (simp add: g Eg agg_first_hd[OF ne some] fw)
  obtain i where i: "i < length frame" "frame ! i = r"
    using r by (auto simp: in_set_conv_nth)
  have "treatment_TBWL r = map treatment_TBWL frame ! i" using i by simp
  also have "\<dots> = opt_minus
        (transform agg_last (map key_episode frame) (map Weight_col frame) ! i)
        (transform agg_first (map key_episode frame) (map Weight_col frame) ! i)"
    unfolding ff(6) using i by simp
  also have "\<dots> = opt_minus (Some (Weight w2)) (Some (Weight w1))"
    using i by (simp add: transform_idx g Eg agg_first_hd[OF ne some] agg_last_last[OF ne some] fw lw)
  finally have ttbwl: "treatment_TBWL r = Some (float_sub (Weight w2) (Weight w1))" by simp
  have tt: "t \<in> set treatments \<and> T_MasterUserID t = UID (usr r)"
  proof -
    have "base_row r \<in> set M" using ff(1) r unfolding M_def by (rule set_frame_rows)
    then obtain u where u: "u \<in> set users"
      and ru: "base_row r \<in> set (user_rows u weights treatments)"
      by (auto simp: M_def in_merge_left)
    have "usr r = u"
      and "Some t \<in> set (left_matches (filter (\<lambda>t. T_MasterUserID t = UID u) treatments))"
      using ru t by (auto simp: in_user_rows)
    then show ?thesis by (auto simp: Some_in_left_matches)
  qed
  have hdw: "Weight_col (hd (filter (\<lambda>x. same_episode x r) (sort_values M))) = Some (Weight w1)"
    using ne fw by (simp add: sorted_E hd_map)
  have lastw: "Weight_col (last (filter (\<lambda>x. same_episode x r) (sort_values M))) = Some (Weight w2)"
    using ne lw by (simp add: sorted_E last_map)
  have "trt r = Some t \<and> t \<in> set treatments \<and> T_MasterUserID t = UID (usr r)
         \<and> w1 \<in> set weights \<and> W_MasterUserID w1 = UID (usr r)
         \<and> w2 \<in> set weights \<and> W_MasterUserID w2 = UID (usr r)
         \<and> (\<forall>w\<in>set weights. W_MasterUserID w = UID (usr r) \<longrightarrow>
               Weights_CreatedDate w1 \<le> Weights_CreatedDate w
               \<and> Weights_CreatedDate w \<le> Weights_CreatedDate w2)
         \<and> Weight_col (hd (filter (\<lambda>x. same_episode x r)
                             (sort_values (merge_left users weights treatments)))) = Some (Weight w1)
         \<and> Weight_col (last (filter (\<lambda>x. same_episode x r)
                               (sort_values (merge_left users weights treatments)))) = Some (Weight w2)
         \<and> treatment_starting_weight r = Some (Weight w1)
         \<and> treatment_TBWL r = Some (float_sub (Weight w2) (Weight w1))
         \<and> (float_sub (Weight w2) (Weight w1) < 0 \<longleftrightarrow> Weight w2 < Weight w1)"
    using t tt f1 f2 bounds tsw ttbwl hdw lastw unfolding P_def M_def by simp
  then show ?thesis by blast
qed



lemma ex2_frame_run:
  "metrics_frame Analytics ex2_users ex2_weights ex2_treatments Week = Inr ex2_rows"
  by code_simp

lemma ex2_pipeline:
  "data_pipeline Analytics ex2_users ex2_weights ex2_treatments Week ''all'' 18 72 5066 = Inr ex2_rows"
  unfolding data_pipeline_def ex2_frame_run by code_simp

lemma ex2_rows_len: "length ex2_rows = 10"
  by (simp add: ex2_rows_def)

theorem treatment_TBWL_last_minus_first_witness:
  "data_pipeline Analytics ex2_users ex2_weights ex2_treatments Week ''all'' 18 72 5066 = Inr ex2_rows
   \<and> ex2_rows ! 9 \<in> set ex2_rows
   \<and> UID (usr (ex2_rows ! 9)) = 2
   \<and> treatment_starting_weight (ex2_rows ! 9) = Some 80
   \<and> treatment_TBWL (ex2_rows ! 9) = Some (5 / 2)
   \<and> (\<exists>t w1 w2.
           trt (ex2_rows ! 9) = Some t \<and> t \<in> set ex2_treatments
         \<and> T_MasterUserID t = UID (usr (ex2_rows ! 9))
         \<and> w1 \<in> set ex2_weights \<and> W_MasterUserID w1 = UID (usr (ex2_rows ! 9))
         \<and> w2 \<in> set ex2_weights \<and> W_MasterUserID w2 = UID (usr (ex2_rows ! 9))
         \<and> (\<forall>w\<in>set ex2_weights. W_MasterUserID w = UID (usr (ex2_rows ! 9)) \<longrightarrow>
               Weights_CreatedDate w1 \<le> Weights_CreatedDate w
               \<and> Weights_CreatedDate w \<le> Weights_CreatedDate w2)
         \<and> Weight_col (hd (filter (\<lambda>x. same_episode x (ex2_rows ! 9))
                             (sort_values (merge_left ex2_users ex2_weights ex2_treatments))))
             = Some (Weight w1)
         \<and> Weight_col (last (filter (\<lambda>x. same_episode x (ex2_rows ! 9))
                               (sort_values (merge_left ex2_users ex2_weights ex2_treatments))))
             = Some (Weight w2)
         \<and> treatment_starting_weight (ex2_rows ! 9) = Some (Weight w1)
         \<and> treatment_TBWL (ex2_rows ! 9) = Some (float_sub (Weight w2) (Weight w1))
         \<and> (float_sub (Weight w2) (Weight w1) < 0 \<longleftrightarrow> Weight w2 < Weight w1))"
proof -
  have h1: "data_pipeline Analytics ex2_users ex2_weights ex2_treatments Week ''all'' 18 72 5066
      = Inr ex2_rows"
    by (rule ex2_pipeline)
  have h2: "ex2_rows ! 9 \<in> set ex2_rows" by (rule nth_mem) (simp add: ex2_rows_len)
  have v: "UID (usr (ex2_rows ! 9)) = 2 \<and> treatment_starting_weight (ex2_rows ! 9) = Some 80
      \<and> treatment_TBWL (ex2_rows ! 9) = Some (5 / 2)"
    by code_simp
  from h1 h2 v treatment_TBWL_last_minus_first [OF h1 h2] show ?thesis by blast
qed

section \<open>The weigh-in rate\<close>

lemma key_cohort_same:
  assumes "trt x \<noteq> None" and "week x \<noteq> None" and "trt r \<noteq> None" and "week r \<noteq> None"
  shows "key_cohort c x = key_cohort c r \<longleftrightarrow> same_cohort_group c x r"
  using assms
  by (cases c)
     (auto simp: key_cohort_def cohort_col_def same_cohort_group_def same_episode_def
           split: option.splits)

text \<open>
  In the two pandas files \<^verbatim>\<open>transform('count')\<close> skips nulls: on every row of the frame
  \<^verbatim>\<open>weigh_in_rate\<close> is the number of rows with the row's patient, treatment type, episode
  start and cohort value whose update timestamp is not null.
\<close>

lemma weigh_in_rate_counts_group:
  assumes "metrics_frame v users weights treatments c = Inr frame" and "r \<in> set frame"
  shows "weigh_in_rate r =
           Some (int (length (filter (\<lambda>x. same_cohort_group c x r
                                          \<and> Weights_UpdatedDate_col x \<noteq> None) frame)))"
proof -
  note ff = frame_facts[OF assms(1)]
  have nn: "trt r \<noteq> None" "week r \<noteq> None" using ff(2) assms(2) by auto
  obtain g where g: "key_cohort c r = Some g"
    using nn key_cohort_Some[of r c] by auto
  have "weigh_in_rate r =
      agg_count (map Weights_UpdatedDate_col (filter (\<lambda>x. key_cohort c x = Some g) frame))"
    using transform_at[OF ff(3) assms(2)] by (simp add: g)
  then have "weigh_in_rate r =
      Some (int (length (filter (\<lambda>x. key_cohort c x = key_cohort c r
                                      \<and> Weights_UpdatedDate_col x \<noteq> None) frame)))"
    by (simp add: agg_count_def length_valid_map g conj_commute)
  moreover have "filter (\<lambda>x. key_cohort c x = key_cohort c r
                            \<and> Weights_UpdatedDate_col x \<noteq> None) frame
      = filter (\<lambda>x. same_cohort_group c x r \<and> Weights_UpdatedDate_col x \<noteq> None) frame"
  proof (rule filter_cong[OF refl])
    fix x assume "x \<in> set frame"
    then have "trt x \<noteq> None" "week x \<noteq> None" using ff(2) by auto
    then show "(key_cohort c x = key_cohort c r \<and> Weights_UpdatedDate_col x \<noteq> None)
        = (same_cohort_group c x r \<and> Weights_UpdatedDate_col x \<noteq> None)"
      using nn by (simp add: key_cohort_same)
  qed
  ultimately show ?thesis by simp
qed

text \<open>
  C8. One patient, one episode, two weigh-ins in the first week, the second with an empty
  update timestamp. The group has one non-null update timestamp, and the two pandas files
  give \<^verbatim>\<open>weigh_in_rate\<close> 1 on both rows. The \<^verbatim>\<open>count()\<close> over the same window in
  \<^verbatim>\<open>polars_DataModel.py\<close> gives 2: it counts the row with the null.
\<close>

theorem polars_count_counts_null:
  "map (\<lambda>r. (week r, Weights_UpdatedDate_col r \<noteq> None))
       (rows_of (add_cohorts Pandas (sort_values (merge_left
          [ex_user 1 ''Male'' 30 5066] [ex_weight 1 70 1, ex_weight_no_update 1 69 2]
          [ex_treatment 1]))))
     = [(Some 0, True), (Some 0, False)]
   \<and> polars_WIR Week
       (rows_of (add_cohorts Pandas (sort_values (merge_left
          [ex_user 1 ''Male'' 30 5066] [ex_weight 1 70 1, ex_weight_no_update 1 69 2]
          [ex_treatment 1]))))
     = [2, 2]
   \<and> map weigh_in_rate (rows_of (data_pipeline Pandas
          [ex_user 1 ''Male'' 30 5066] [ex_weight 1 70 1, ex_weight_no_update 1 69 2]
          [ex_treatment 1] Week ''all'' 18 72 5066))
     = [Some 1, Some 1]
   \<and> map weigh_in_rate (rows_of (data_pipeline Analytics
          [ex_user 1 ''Male'' 30 5066] [ex_weight 1 70 1, ex_weight_no_update 1 69 2]
          [ex_treatment 1] Week ''all'' 18 72 5066))
     = [Some 1, Some 1]"
  by code_simp


section \<open>The patient weight loss between cohort periods\<close>

lemma float_sub_nonneg_iff [simp]: "0 \<le> float_sub a b \<longleftrightarrow> b \<le> a"
  by (metis float_sub_less_0_iff not_less)

lemma float_sub_nonpos_iff [simp]: "float_sub a b \<le> 0 \<longleftrightarrow> a \<le> b"
  by (metis float_sub_greater_0_iff not_less)

















end
